theory Spec2Isabelle
  imports
    Complex_Main
    "HOL-Library.Char_ord"
    "HOL-Library.List_Lexorder"
    "HOL-Library.AList"
    "HOL-Library.Multiset"
begin

section \<open>The JavaScript runtime used by server.js\<close>

text \<open>
  server.js leans on three pieces of the language runtime: the conversion of a number to
  a string (template literals, \<open>String(n)\<close>), \<open>String.prototype.padStart\<close>, and
  the \<open>Date\<close> object. They are modelled here after ECMA-262. A time value is an
  \<open>int\<close> (milliseconds since the epoch, UTC); an invalid date (time value NaN) is
  \<open>None\<close>. The local time zone is a fixed offset \<open>tza\<close> in milliseconds
  (no daylight-saving transitions), a parameter of every local-time operation.
\<close>

subsection \<open>Numbers to strings\<close>

definition digit_char :: "nat \<Rightarrow> char" where
  "digit_char d = char_of (48 + d)"



fun dec :: "nat \<Rightarrow> string" where
  "dec n = (if n < 10 then [digit_char n] else dec (n div 10) @ [digit_char (n mod 10)])"

declare dec.simps [simp del]

text \<open>\<open>String(i)\<close> for an integral number \<open>i\<close> (below 10^21 in magnitude).\<close>

definition js_int_str :: "int \<Rightarrow> string" where
  "js_int_str i = (if i < 0 then CHR ''-'' # dec (nat (- i)) else dec (nat i))"

text \<open>\<open>s.padStart(n, c)\<close> for a one-character filler.\<close>

definition padStart :: "nat \<Rightarrow> char \<Rightarrow> string \<Rightarrow> string" where
  "padStart n c s = replicate (n - length s) c @ s"

subsection \<open>Time values and the calendar (ECMA-262, Date objects)\<close>

definition msPerDay :: int where
  "msPerDay = 86400000"

definition Day :: "int \<Rightarrow> int" where
  "Day t = t div msPerDay"

definition TimeWithinDay :: "int \<Rightarrow> int" where
  "TimeWithinDay t = t mod msPerDay"

definition DaysInYear :: "int \<Rightarrow> int" where
  "DaysInYear y =
     (if y mod 4 \<noteq> 0 then 365
      else if y mod 100 \<noteq> 0 then 366
      else if y mod 400 \<noteq> 0 then 365
      else 366)"

definition DayFromYear :: "int \<Rightarrow> int" where
  "DayFromYear y =
     365 * (y - 1970) + (y - 1969) div 4 - (y - 1901) div 100 + (y - 1601) div 400"

text \<open>
  \<open>YearFromTime(t)\<close> is the largest \<open>y\<close> with \<open>TimeFromYear(y) \<le> t\<close>. It is
  found by a search from an estimate, upwards while the next year has begun and downwards
  while the year has not.
\<close>

function year_up :: "int \<Rightarrow> int \<Rightarrow> int" where
  "year_up dn y = (if DayFromYear (y + 1) \<le> dn then year_up dn (y + 1) else y)"
  by pat_completeness auto
termination
proof (relation "measure (\<lambda>(dn, y). nat (dn - DayFromYear y))")
  show "wf (measure (\<lambda>(dn, y). nat (dn - DayFromYear y)))"
    by simp
next
  fix dn y :: int
  assume le: "DayFromYear (y + 1) \<le> dn"
  have a: "(y - 1969) div 4 \<le> (y + 1 - 1969) div 4"
    by (rule zdiv_mono1) simp_all
  have b: "(y + 1 - 1901) div 100 \<le> (y - 1901) div 100 + 1"
    by linarith
  have c: "(y - 1601) div 400 \<le> (y + 1 - 1601) div 400"
    by (rule zdiv_mono1) simp_all
  have lin: "365 * (y - 1970) + p - q + r < 365 * (y + 1 - 1970) + p' - q' + r'"
    if "p \<le> p'" "q' \<le> q + 1" "r \<le> r'" for p p' q q' r r' :: int
    using that by (simp add: algebra_simps)
  have "DayFromYear y < DayFromYear (y + 1)"
    unfolding DayFromYear_def by (rule lin [OF a b c])
  with le show "((dn, y + 1), (dn, y)) \<in> measure (\<lambda>(dn, y). nat (dn - DayFromYear y))"
    by simp
qed

function year_down :: "int \<Rightarrow> int \<Rightarrow> int" where
  "year_down dn y = (if DayFromYear y \<le> dn then y else year_down dn (y - 1))"
  by pat_completeness auto
termination
proof (relation "measure (\<lambda>(dn, y). nat (DayFromYear y - dn))")
  show "wf (measure (\<lambda>(dn, y). nat (DayFromYear y - dn)))"
    by simp
next
  fix dn y :: int
  assume gt: "\<not> DayFromYear y \<le> dn"
  have a: "(y - 1 - 1969) div 4 \<le> (y - 1969) div 4"
    by (rule zdiv_mono1) simp_all
  have b: "(y - 1901) div 100 \<le> (y - 1 - 1901) div 100 + 1"
    by linarith
  have c: "(y - 1 - 1601) div 400 \<le> (y - 1601) div 400"
    by (rule zdiv_mono1) simp_all
  have lin: "365 * (y - 1 - 1970) + p - q + r < 365 * (y - 1970) + p' - q' + r'"
    if "p \<le> p'" "q' \<le> q + 1" "r \<le> r'" for p p' q q' r r' :: int
    using that by (simp add: algebra_simps)
  have "DayFromYear (y - 1) < DayFromYear y"
    unfolding DayFromYear_def by (rule lin [OF a b c])
  with gt show "((dn, y - 1), (dn, y)) \<in> measure (\<lambda>(dn, y). nat (DayFromYear y - dn))"
    by simp
qed

declare year_up.simps [simp del]
declare year_down.simps [simp del]

definition YearFromDay :: "int \<Rightarrow> int" where
  "YearFromDay dn =
     (let y0 = 1970 + (dn * 400) div 146097
      in if DayFromYear y0 \<le> dn then year_up dn y0 else year_down dn (y0 - 1))"

definition YearFromTime :: "int \<Rightarrow> int" where
  "YearFromTime t = YearFromDay (Day t)"

definition InLeapYear :: "int \<Rightarrow> int" where
  "InLeapYear t = (if DaysInYear (YearFromTime t) = 366 then 1 else 0)"

definition DayWithinYear :: "int \<Rightarrow> int" where
  "DayWithinYear t = Day t - DayFromYear (YearFromTime t)"

text \<open>The day within the year on which month \<open>m\<close> (0 to 11) begins; \<open>l\<close> is 1 in a leap year.\<close>

definition month_start :: "int \<Rightarrow> int \<Rightarrow> int" where
  "month_start l m =
     (if m = 0 then 0 else if m = 1 then 31
      else if m = 2 then 59 + l else if m = 3 then 90 + l
      else if m = 4 then 120 + l else if m = 5 then 151 + l
      else if m = 6 then 181 + l else if m = 7 then 212 + l
      else if m = 8 then 243 + l else if m = 9 then 273 + l
      else if m = 10 then 304 + l else 334 + l)"

definition MonthFromTime :: "int \<Rightarrow> int" where
  "MonthFromTime t =
     (let d = DayWithinYear t; l = InLeapYear t
      in if d < 31 then 0 else if d < 59 + l then 1
         else if d < 90 + l then 2 else if d < 120 + l then 3
         else if d < 151 + l then 4 else if d < 181 + l then 5
         else if d < 212 + l then 6 else if d < 243 + l then 7
         else if d < 273 + l then 8 else if d < 304 + l then 9
         else if d < 334 + l then 10 else 11)"

definition DateFromTime :: "int \<Rightarrow> int" where
  "DateFromTime t = DayWithinYear t - month_start (InLeapYear t) (MonthFromTime t) + 1"

definition HourFromTime :: "int \<Rightarrow> int" where
  "HourFromTime t = (t div 3600000) mod 24"

definition MinFromTime :: "int \<Rightarrow> int" where
  "MinFromTime t = (t div 60000) mod 60"

definition SecFromTime :: "int \<Rightarrow> int" where
  "SecFromTime t = (t div 1000) mod 60"

definition msFromTime :: "int \<Rightarrow> int" where
  "msFromTime t = t mod 1000"

text \<open>
  \<open>MakeDay(year, month, date)\<close>: the day number of the first day of month
  \<open>month mod 12\<close> of year \<open>year + floor(month / 12)\<close>, plus \<open>date - 1\<close>.
\<close>

definition MakeDay :: "int \<Rightarrow> int \<Rightarrow> int \<Rightarrow> int" where
  "MakeDay year month dt =
     (let ym = year + month div 12; mn = month mod 12
      in DayFromYear ym + month_start (if DaysInYear ym = 366 then 1 else 0) mn + dt - 1)"

definition MakeDate :: "int \<Rightarrow> int \<Rightarrow> int" where
  "MakeDate day time = day * msPerDay + time"

definition TimeClip :: "int \<Rightarrow> int option" where
  "TimeClip t = (if \<bar>t\<bar> > 8640000000000000 then None else Some t)"

definition LocalTime :: "int \<Rightarrow> int \<Rightarrow> int" where
  "LocalTime tza t = t + tza"

definition UTC :: "int \<Rightarrow> int \<Rightarrow> int" where
  "UTC tza t = t - tza"

text \<open>The getters and setters server.js calls on \<open>now\<close>, a valid date.\<close>

definition getFullYear :: "int \<Rightarrow> int \<Rightarrow> int" where
  "getFullYear tza t = YearFromTime (LocalTime tza t)"

definition getMonth :: "int \<Rightarrow> int \<Rightarrow> int" where
  "getMonth tza t = MonthFromTime (LocalTime tza t)"

definition getDate :: "int \<Rightarrow> int \<Rightarrow> int" where
  "getDate tza t = DateFromTime (LocalTime tza t)"

definition setDate :: "int \<Rightarrow> int \<Rightarrow> int \<Rightarrow> int option" where
  "setDate tza t dt =
     (let lt = LocalTime tza t
      in TimeClip (UTC tza (MakeDate (MakeDay (YearFromTime lt) (MonthFromTime lt) dt)
                                     (TimeWithinDay lt))))"

definition setMonth :: "int \<Rightarrow> int \<Rightarrow> int \<Rightarrow> int option" where
  "setMonth tza t m =
     (let lt = LocalTime tza t
      in TimeClip (UTC tza (MakeDate (MakeDay (YearFromTime lt) m (DateFromTime lt))
                                     (TimeWithinDay lt))))"

definition setFullYear :: "int \<Rightarrow> int \<Rightarrow> int \<Rightarrow> int option" where
  "setFullYear tza t y =
     (let lt = LocalTime tza t
      in TimeClip (UTC tza (MakeDate (MakeDay y (MonthFromTime lt) (DateFromTime lt))
                                     (TimeWithinDay lt))))"

text \<open>
  \<open>toISOString()\<close> of a valid date: \<open>YYYY-MM-DDTHH:mm:ss.sssZ\<close> in UTC, the year
  written with four digits from 0 to 9999 and as a sign and six digits otherwise.
\<close>

definition iso_year :: "int \<Rightarrow> string" where
  "iso_year y =
     (if 0 \<le> y \<and> y \<le> 9999 then padStart 4 (CHR ''0'') (dec (nat y))
      else (if y < 0 then CHR ''-'' else CHR ''+'') # padStart 6 (CHR ''0'') (dec (nat \<bar>y\<bar>)))"

definition toISOString :: "int \<Rightarrow> string" where
  "toISOString t =
     iso_year (YearFromTime t) @ ''-'' @
     padStart 2 (CHR ''0'') (js_int_str (MonthFromTime t + 1)) @ ''-'' @
     padStart 2 (CHR ''0'') (js_int_str (DateFromTime t)) @ ''T'' @
     padStart 2 (CHR ''0'') (js_int_str (HourFromTime t)) @ '':'' @
     padStart 2 (CHR ''0'') (js_int_str (MinFromTime t)) @ '':'' @
     padStart 2 (CHR ''0'') (js_int_str (SecFromTime t)) @ ''.'' @
     padStart 3 (CHR ''0'') (js_int_str (msFromTime t)) @ ''Z''"

text \<open>\<open>s.split('T')[0]\<close>: the part of \<open>s\<close> before the first \<open>T\<close>.\<close>

definition split_T_first :: "string \<Rightarrow> string" where
  "split_T_first s = takeWhile (\<lambda>c. c \<noteq> CHR ''T'') s"

subsection \<open>Values of a JSON body, \<open>new Date(value)\<close> and \<open>parseFloat\<close>\<close>











section \<open>server.js\<close>

text \<open>
  The handlers of the routes the properties below are about, each a function of the
  request, the clock and the state. The message routes, the health check and the static
  pages do not enter these properties and are left out, as are the response headers and
  the file name of the CSV export.
\<close>

subsection \<open>formatDate\<close>

text \<open>
  \<open>formatDate(date)\<close> starts with \<open>new Date(date)\<close>; its argument here is the date
  object that conversion yields (\<open>new_Date\<close> for a value of the request body, the date
  itself for a date). For an invalid date every getter is NaN, \<open>NaN + 1\<close> is
  NaN, and \<open>padStart(2, '0')\<close> leaves the three characters of \<open>NaN\<close> alone.
\<close>

definition formatDate :: "int \<Rightarrow> int option \<Rightarrow> string" where
  "formatDate tza date =
     (case date of
        None \<Rightarrow> ''NaN-NaN-NaN''
      | Some d \<Rightarrow>
          (let year = getFullYear tza d;
               month = padStart 2 (CHR ''0'') (js_int_str (getMonth tza d + 1));
               day = padStart 2 (CHR ''0'') (js_int_str (getDate tza d))
           in js_int_str year @ ''-'' @ month @ ''-'' @ day))"

subsection \<open>Requests and the two tables\<close>

text \<open>
  A query parameter (\<open>req.query.filter\<close>, \<open>req.query.format\<close>) or the body field
  \<open>confirmClear\<close>, which the code only tests for truthiness and compares with string
  literals by \<open>===\<close> and \<open>!==\<close>: it is absent, a string, or something else (the
  query parser yields arrays and objects, which are truthy and equal to no string).
\<close>

datatype reqval = Absent | Text string | Other

fun truthy :: "reqval \<Rightarrow> bool" where
  "truthy Absent = False"
| "truthy (Text s) = (s \<noteq> [])"
| "truthy Other = True"

text \<open>
  The rows of the tables \<open>transactions\<close> and \<open>messages\<close>, typed as the schema
  declares them. The REAL columns hold JavaScript numbers; they are modelled as exact
  reals, so the rounding of IEEE doubles is outside the model. The column \<open>id\<close> is
  the field \<open>rowid\<close>.
\<close>

record transaction =
  rowid :: nat
  customerName :: string
  phoneNumber :: string
  service :: string
  amountPaid :: real
  serviceBy :: string
  expenses :: real
  date :: string
  timestamp :: string

record message =
  msg_id :: nat
  msg_text :: string
  msg_sender :: string
  msg_timestamp :: string
  msg_time :: string

text \<open>
  The state of the server: the two tables with their AUTOINCREMENT counters, and the file
  system as far as \<open>backupDatabase\<close> sees it. The database file at \<open>DB_PATH\<close> is
  the live image of the two tables, so the state only records whether it exists
  (\<open>db_file\<close>); every other path maps to a directory or to a file holding a copy of
  the tables. The storage engine is total in this model: a statement always succeeds, and
  the \<open>if (err)\<close> branches of the handlers (status 500) are never taken.
\<close>

datatype fs_node = Dir | File "transaction list \<times> message list"

record server =
  transactions :: "transaction list"
  messages :: "message list"
  transactions_seq :: nat
  messages_seq :: nat
  db_file :: bool
  fs :: "string \<Rightarrow> fs_node option"

datatype 'a reply = Status400 string | Json 'a

subsection \<open>Queries\<close>

text \<open>
  The handlers build \<open>SELECT * FROM transactions\<close>, optionally followed by
  \<open>WHERE date = ?\<close> or \<open>WHERE date >= ?\<close> and by \<open>ORDER BY timestamp DESC\<close>.
  SQLite compares TEXT values byte by byte, which is the lexicographic order on
  \<open>string\<close>. SQLite does not fix the order of rows with equal timestamps; its sorter
  keeps them in the order of the scan, the order of insertion, and so does the model.
\<close>

datatype where_clause = NoWhere | DateEq string | DateGe string

fun matches :: "where_clause \<Rightarrow> transaction \<Rightarrow> bool" where
  "matches NoWhere r = True"
| "matches (DateEq p) r = (date r = p)"
| "matches (DateGe p) r = (date r \<ge> p)"

definition order_by_timestamp_desc :: "transaction list \<Rightarrow> transaction list" where
  "order_by_timestamp_desc rows = rev (sort_key timestamp (rev rows))"

definition db_all :: "where_clause \<Rightarrow> bool \<Rightarrow> transaction list \<Rightarrow> transaction list" where
  "db_all w ordered tbl =
     (let rows = filter (matches w) tbl
      in if ordered then order_by_timestamp_desc rows else rows)"

subsection \<open>GET /api/transactions (listTransactions)\<close>

definition transactions_where :: "int \<Rightarrow> int \<Rightarrow> reqval \<Rightarrow> where_clause" where
  "transactions_where tza now filter' =
     (if truthy filter' \<and> filter' \<noteq> Text ''all'' then
        (let today = formatDate tza (Some now)
         in if filter' = Text ''day'' then DateEq today
            else if filter' = Text ''week'' then
              (let weekAgo = setDate tza now (getDate tza now - 7)
               in DateGe (formatDate tza weekAgo))
            else if filter' = Text ''month'' then
              (let monthAgo = setMonth tza now (getMonth tza now - 1)
               in DateGe (formatDate tza monthAgo))
            else if filter' = Text ''year'' then
              (let yearAgo = setFullYear tza now (getFullYear tza now - 1)
               in DateGe (formatDate tza yearAgo))
            else NoWhere)
      else NoWhere)"

definition listTransactions :: "int \<Rightarrow> int \<Rightarrow> reqval \<Rightarrow> server \<Rightarrow> transaction list" where
  "listTransactions tza now filter' s =
     db_all (transactions_where tza now filter') True (transactions s)"

subsection \<open>POST /api/transactions (createTransaction)\<close>











subsection \<open>GET /api/analytics (computeAnalytics)\<close>

definition analytics_where :: "int \<Rightarrow> int \<Rightarrow> reqval \<Rightarrow> where_clause" where
  "analytics_where tza now filter' =
     (if truthy filter' \<and> filter' \<noteq> Text ''all'' then
        (let today = formatDate tza (Some now)
         in if filter' = Text ''day'' then DateEq today
            else if filter' = Text ''week'' then
              (let weekAgo = setDate tza now (getDate tza now - 7)
               in DateGe (formatDate tza weekAgo))
            else if filter' = Text ''month'' then
              (let monthAgo = setMonth tza now (getMonth tza now - 1)
               in DateGe (formatDate tza monthAgo))
            else if filter' = Text ''year'' then
              (let yearAgo = setFullYear tza now (getFullYear tza now - 1)
               in DateGe (formatDate tza yearAgo))
            else NoWhere)
      else NoWhere)"

text \<open>
  \<open>servicePerformance\<close> is a plain object used as a dictionary. Its own properties
  are an association list; it inherits from \<open>Object.prototype\<close>, and two inherited
  properties matter to the loop over the rows:
  \<^item> the call \<open>servicePerformance.hasOwnProperty(...)\<close> looks \<open>hasOwnProperty\<close> up on
    the object first. Once a row has made \<open>hasOwnProperty\<close> an own property (a
    number), the call throws a TypeError, inside the database callback, where nothing
    catches it;
  \<^item> \<open>__proto__\<close> is never an own property of the object, and assigning a number to
    it runs the inherited setter, which ignores a value that is neither an object nor
    null: the assignment changes nothing.
  Every other key not yet present becomes a new own property. The order in which a
  JavaScript object lists its keys is not modelled.
\<close>

datatype js_error = TypeError string

definition hasOwnProperty :: "(string \<times> real) list \<Rightarrow> string \<Rightarrow> bool" where
  "hasOwnProperty obj k = (map_of obj k \<noteq> None)"

definition servicePerformance_step ::
  "(string \<times> real) list \<Rightarrow> transaction \<Rightarrow> js_error + (string \<times> real) list" where
  "servicePerformance_step sp t =
     (if hasOwnProperty sp ''hasOwnProperty'' then
        Inl (TypeError ''analytics.servicePerformance.hasOwnProperty is not a function'')
      else if hasOwnProperty sp (service t) then
        Inr (AList.update (service t) (the (map_of sp (service t)) + amountPaid t) sp)
      else if service t = ''__proto__'' then Inr sp
      else Inr (AList.update (service t) (amountPaid t) sp))"

fun servicePerformance_forEach ::
  "(string \<times> real) list \<Rightarrow> transaction list \<Rightarrow> js_error + (string \<times> real) list" where
  "servicePerformance_forEach sp [] = Inr sp"
| "servicePerformance_forEach sp (t # ts) =
     (case servicePerformance_step sp t of
        Inl e \<Rightarrow> Inl e
      | Inr sp' \<Rightarrow> servicePerformance_forEach sp' ts)"

record analytics =
  totalIncome :: real
  totalExpenses :: real
  netIncome :: real
  servicePerformance :: "(string \<times> real) list"
  transactionCount :: nat

definition analytics_of_rows :: "transaction list \<Rightarrow> js_error + analytics" where
  "analytics_of_rows rows =
     (let a0 = \<lparr>totalIncome = foldl (\<lambda>sum t. sum + amountPaid t) 0 rows,
                 totalExpenses = foldl (\<lambda>sum t. sum + expenses t) 0 rows,
                 netIncome = 0,
                 servicePerformance = [(''Photography'', 0), (''Makeup'', 0), (''Product Sales'', 0)],
                 transactionCount = length rows\<rparr>;
          a1 = a0\<lparr>netIncome := totalIncome a0 - totalExpenses a0\<rparr>
      in case servicePerformance_forEach (servicePerformance a1) rows of
           Inl e \<Rightarrow> Inl e
         | Inr sp \<Rightarrow> Inr (a1\<lparr>servicePerformance := sp\<rparr>))"

definition analytics_rows :: "int \<Rightarrow> int \<Rightarrow> reqval \<Rightarrow> server \<Rightarrow> transaction list" where
  "analytics_rows tza now filter' s =
     db_all (analytics_where tza now filter') False (transactions s)"

definition computeAnalytics :: "int \<Rightarrow> int \<Rightarrow> reqval \<Rightarrow> server \<Rightarrow> js_error + analytics" where
  "computeAnalytics tza now filter' s = analytics_of_rows (analytics_rows tza now filter' s)"

text \<open>The sum of all values of \<open>servicePerformance\<close>.\<close>

definition servicePerformance_total :: "analytics \<Rightarrow> real" where
  "servicePerformance_total a = sum_list (map snd (servicePerformance a))"

subsection \<open>backupDatabase (backupNow)\<close>

text \<open>
  \<open>fs.existsSync\<close>, \<open>fs.mkdirSync\<close> with \<open>recursive: true\<close> (the ancestors of the
  directory are not tracked) and \<open>fs.copyFileSync(DB_PATH, backupPath)\<close>, which throws
  when the directory of the destination is missing or is a file, or when the destination
  is a directory. These are the failures the file system of the model can express; a copy
  that fails for another reason (permissions, a full disk) is not modelled. Of the
  message of the error only the code and its description are kept; Node appends the
  operation and the two paths. The console lines are returned, without their emoji.
\<close>

definition existsSync :: "server \<Rightarrow> string \<Rightarrow> bool" where
  "existsSync s p = (fs s p \<noteq> None)"

definition mkdirSync :: "server \<Rightarrow> string \<Rightarrow> server" where
  "mkdirSync s p = s\<lparr>fs := (fs s)(p \<mapsto> Dir)\<rparr>"

definition copyFileSync :: "server \<Rightarrow> string \<Rightarrow> string \<Rightarrow> string + server" where
  "copyFileSync s dir dst =
     (case fs s dir of
        None \<Rightarrow> Inl ''ENOENT: no such file or directory''
      | Some (File c) \<Rightarrow> Inl ''ENOTDIR: not a directory''
      | Some Dir \<Rightarrow>
          (case fs s dst of
             Some Dir \<Rightarrow> Inl ''EISDIR: illegal operation on a directory''
           | _ \<Rightarrow> Inr (s\<lparr>fs := (fs s)(dst \<mapsto> File (transactions s, messages s))\<rparr>)))"

text \<open>\<open>process.env.DB_BACKUP_PATH || './backups'\<close>: an unset or empty variable is falsy.\<close>

definition backupDir_of :: "string option \<Rightarrow> string" where
  "backupDir_of DB_BACKUP_PATH =
     (case DB_BACKUP_PATH of
        None \<Rightarrow> ''./backups''
      | Some p \<Rightarrow> if p = [] then ''./backups'' else p)"

definition backupPath_of :: "string option \<Rightarrow> int \<Rightarrow> string" where
  "backupPath_of DB_BACKUP_PATH now =
     (let timestamp = split_T_first (toISOString now);
          backupDir = backupDir_of DB_BACKUP_PATH
      in backupDir @ ''/business_'' @ timestamp @ ''.db'')"

definition backupDatabase :: "string option \<Rightarrow> int \<Rightarrow> server \<Rightarrow> server \<times> string list" where
  "backupDatabase DB_BACKUP_PATH now s =
     (let backupDir = backupDir_of DB_BACKUP_PATH;
          backupPath = backupPath_of DB_BACKUP_PATH now;
          s1 = (if \<not> existsSync s backupDir then mkdirSync s backupDir else s)
      in if db_file s1 then
           (case copyFileSync s1 backupDir backupPath of
              Inr s2 \<Rightarrow> (s2, [''Database backed up to '' @ backupPath])
            | Inl msg \<Rightarrow> (s1, [''Error backing up database: '' @ msg]))
         else (s1, [''Database file not found, skipping backup'']))"

subsection \<open>DELETE /api/admin/clear-data (clearAllData)\<close>

record cleared =
  cleared_message :: string
  cleared_transactions :: bool
  cleared_messages :: bool
  cleared_backup :: string
  cleared_timestamp :: string

text \<open>
  The handler answers and logs; the result is the response, the new state and the console
  lines. \<open>this.changes\<close> of a DELETE without WHERE is the number of rows the table had.
\<close>

definition clearAllData ::
  "string option \<Rightarrow> int \<Rightarrow> reqval \<Rightarrow> server \<Rightarrow> cleared reply \<times> server \<times> string list" where
  "clearAllData DB_BACKUP_PATH now confirmClear s =
     (if confirmClear \<noteq> Text ''YES_DELETE_ALL_DATA'' then
        (Status400 ''Confirmation required. Send confirmClear: \"YES_DELETE_ALL_DATA\"'', s, [])
      else
        (let (s1, log1) = backupDatabase DB_BACKUP_PATH now s;
             changes1 = length (transactions s1);
             s2 = s1\<lparr>transactions := []\<rparr>;
             log2 = [''Cleared '' @ js_int_str (int changes1) @ '' transactions''];
             changes2 = length (messages s2);
             s3 = s2\<lparr>messages := []\<rparr>;
             log3 = [''Cleared '' @ js_int_str (int changes2) @ '' messages'']
         in (Json \<lparr>cleared_message = ''All data cleared successfully'',
                    cleared_transactions = True,
                    cleared_messages = True,
                    cleared_backup = ''Data backed up before clearing'',
                    cleared_timestamp = toISOString now\<rparr>,
             s3, log1 @ log2 @ log3)))"

subsection \<open>GET /api/admin/export (exportTransactions)\<close>

definition export_where :: "int \<Rightarrow> int \<Rightarrow> reqval \<Rightarrow> where_clause" where
  "export_where tza now filter' =
     (if truthy filter' \<and> filter' \<noteq> Text ''all'' then
        (let today = formatDate tza (Some now)
         in if filter' = Text ''day'' then DateEq today
            else if filter' = Text ''week'' then
              (let weekAgo = setDate tza now (getDate tza now - 7)
               in DateGe (formatDate tza weekAgo))
            else if filter' = Text ''month'' then
              (let monthAgo = setMonth tza now (getMonth tza now - 1)
               in DateGe (formatDate tza monthAgo))
            else if filter' = Text ''year'' then
              (let yearAgo = setFullYear tza now (getFullYear tza now - 1)
               in DateGe (formatDate tza yearAgo))
            else NoWhere)
      else NoWhere)"

definition export_rows :: "int \<Rightarrow> int \<Rightarrow> reqval \<Rightarrow> server \<Rightarrow> transaction list" where
  "export_rows tza now filter' s =
     db_all (export_where tza now filter') True (transactions s)"

text \<open>
  A number inside a template literal is converted by the runtime's Number-to-string
  conversion, the parameter \<open>num_str\<close>.
\<close>

definition csv_header :: string where
  "csv_header = ''Date,Customer Name,Phone Number,Service,Amount Paid,Service By,Expenses,Net Profit,Timestamp\<newline>''"

definition csv_line :: "(real \<Rightarrow> string) \<Rightarrow> transaction \<Rightarrow> string" where
  "csv_line num_str row =
     (let netProfit = amountPaid row - expenses row
      in ''\"'' @ date row @ ''\",\"'' @ customerName row @ ''\",\"'' @ phoneNumber row @
         ''\",\"'' @ service row @ ''\",\"'' @ num_str (amountPaid row) @ ''\",\"'' @
         serviceBy row @ ''\",\"'' @ num_str (expenses row) @ ''\",\"'' @ num_str netProfit @
         ''\",\"'' @ timestamp row @ ''\"\<newline>'')"

definition csv_of_rows :: "(real \<Rightarrow> string) \<Rightarrow> transaction list \<Rightarrow> string" where
  "csv_of_rows num_str rows = foldl (\<lambda>csv row. csv @ csv_line num_str row) csv_header rows"

record summary =
  totalTransactions :: nat
  summary_totalIncome :: real
  summary_totalExpenses :: real
  netProfit :: real
  exportDate :: string
  summary_filter :: reqval

datatype export = Csv string | JsonExport summary "transaction list"

definition exportTransactions ::
  "(real \<Rightarrow> string) \<Rightarrow> int \<Rightarrow> int \<Rightarrow> reqval \<Rightarrow> reqval \<Rightarrow> server \<Rightarrow> export" where
  "exportTransactions num_str tza now filter' format s =
     (let rows = export_rows tza now filter' s
      in if format = Text ''csv'' then Csv (csv_of_rows num_str rows)
         else
           (let summary0 = \<lparr>totalTransactions = length rows,
                             summary_totalIncome = foldl (\<lambda>sum t. sum + amountPaid t) 0 rows,
                             summary_totalExpenses = foldl (\<lambda>sum t. sum + expenses t) 0 rows,
                             netProfit = 0,
                             exportDate = toISOString now,
                             summary_filter = (if truthy filter' then filter' else Text ''all'')\<rparr>;
                summary1 = summary0\<lparr>netProfit := summary_totalIncome summary0 - summary_totalExpenses summary0\<rparr>
            in JsonExport summary1 rows))"

section \<open>Definitions that follow the spec's words\<close>

text \<open>
  The CSV row as the spec describes it (section 4.4): the nine fields of the header, in
  its order, with the net profit computed as amountPaid minus expenses; each field
  between double quotes, the fields separated by commas, the row ended by a newline.
\<close>

definition spec_csv_fields :: "(real \<Rightarrow> string) \<Rightarrow> transaction \<Rightarrow> string list" where
  "spec_csv_fields num_str r =
     [date r, customerName r, phoneNumber r, service r, num_str (amountPaid r),
      serviceBy r, num_str (expenses r), num_str (amountPaid r - expenses r), timestamp r]"

definition spec_quoted :: "string \<Rightarrow> string" where
  "spec_quoted v = ''\"'' @ v @ ''\"''"

fun spec_joined :: "string list \<Rightarrow> string" where
  "spec_joined [] = []"
| "spec_joined [v] = v"
| "spec_joined (v # w # vs) = v @ '','' @ spec_joined (w # vs)"

definition spec_csv_row :: "(real \<Rightarrow> string) \<Rightarrow> transaction \<Rightarrow> string" where
  "spec_csv_row num_str r = spec_joined (map spec_quoted (spec_csv_fields num_str r)) @ ''\<newline>''"

text \<open>
  The lower bounds of the time-window filter as the spec describes them (section 4.1):
  now minus 7 calendar days; now minus 1 calendar month, which is as many days as the
  calendar month before the current one has (28 to 31, not a fixed 30); now minus 1
  calendar year, which is as many days as lie between the same calendar date of the
  previous year and today (365 or 366: the length of the previous year up to February,
  of the current year from March on). The calendar fields are those of local time.
\<close>

definition spec_days_in_month :: "int \<Rightarrow> int \<Rightarrow> int" where
  "spec_days_in_month l m =
     (if m = 1 then 28 + l else if m = 3 \<or> m = 5 \<or> m = 8 \<or> m = 10 then 30 else 31)"

definition spec_week_ago :: "int \<Rightarrow> int option" where
  "spec_week_ago now = TimeClip (now - 7 * msPerDay)"

definition spec_month_ago :: "int \<Rightarrow> int \<Rightarrow> int option" where
  "spec_month_ago tza now =
     (let lt = LocalTime tza now; m = MonthFromTime lt
      in TimeClip (now - (if m = 0 then 31 else spec_days_in_month (InLeapYear lt) (m - 1)) * msPerDay))"

definition spec_year_ago :: "int \<Rightarrow> int \<Rightarrow> int option" where
  "spec_year_ago tza now =
     (let lt = LocalTime tza now; m = MonthFromTime lt; y = YearFromTime lt
      in TimeClip (now - (if m \<le> 1 then DaysInYear (y - 1) else DaysInYear y) * msPerDay))"


section \<open>Concrete inputs used in examples\<close>



definition sample_transaction :: transaction where
  "sample_transaction =
     \<lparr>rowid = 1, customerName = ''A'', phoneNumber = ''1'', service = ''X'',
      amountPaid = 10, serviceBy = ''B'', expenses = 2, date = ''2024-01-01'',
      timestamp = ''2024-01-01T09:00:00.000Z''\<rparr>"

definition sample_message :: message where
  "sample_message =
     \<lparr>msg_id = 1, msg_text = ''hello'', msg_sender = ''portal'',
      msg_timestamp = ''2024-01-01T09:30:00.000Z'', msg_time = ''9:30:00 AM''\<rparr>"

text \<open>A server with no rows, no database file on disk and an empty file system.\<close>

definition empty_server :: server where
  "empty_server =
     \<lparr>transactions = [], messages = [], transactions_seq = 0, messages_seq = 0,
      db_file = False, fs = Map.empty\<rparr>"

text \<open>A server with one transaction and one message, its database file on disk.\<close>

definition sample_server :: server where
  "sample_server =
     \<lparr>transactions = [sample_transaction], messages = [sample_message],
      transactions_seq = 1, messages_seq = 1, db_file = True, fs = Map.empty\<rparr>"

text \<open>A stored transaction whose service is the text \<open>__proto__\<close>, and one whose service is \<open>hasOwnProperty\<close>.\<close>

definition proto_transaction :: transaction where
  "proto_transaction = sample_transaction\<lparr>service := ''__proto__''\<rparr>"

definition hop_transaction :: transaction where
  "hop_transaction = sample_transaction\<lparr>service := ''hasOwnProperty''\<rparr>"

text \<open>A transaction dated after 1 July 2024, the clock of the filter examples.\<close>

definition future_transaction :: transaction where
  "future_transaction = sample_transaction\<lparr>date := ''2025-01-01''\<rparr>"

text \<open>The sample server with a second row, dated a year after the first.\<close>

definition two_day_server :: server where
  "two_day_server = sample_server\<lparr>transactions := [sample_transaction, future_transaction]\<rparr>"

text \<open>The sample server after a backup on 1 January 1970 (UTC).\<close>

definition backed_up_server :: server where
  "backed_up_server =
     sample_server\<lparr>fs := [''./backups'' \<mapsto> Dir,
                          ''./backups/business_1970-01-01.db'' \<mapsto> File ([], [])]\<rparr>"

section \<open>Properties\<close>

subsection \<open>The calendar\<close>

lemma div_step:
  fixes x c :: int
  assumes "0 < c"
  shows "(x + 1) div c = x div c + (if (x + 1) mod c = 0 then 1 else 0)"
proof (cases "x mod c + 1 = c")
  case True
  have x: "x + 1 = c * (x div c + 1) + 0"
    using True by (simp add: algebra_simps) (metis add.commute add.left_commute mult_div_mod_eq)
  have "(x + 1) div c = x div c + 1"
    using x assms by (metis add.right_neutral nonzero_mult_div_cancel_left less_irrefl)
  moreover have "(x + 1) mod c = 0"
    using x by (metis add.right_neutral mod_mult_self1_is_0)
  ultimately show ?thesis by simp
next
  case False
  have r: "0 \<le> x mod c" "x mod c < c" using assms by simp_all
  have x: "x + 1 = c * (x div c) + (x mod c + 1)" by simp
  have lt: "x mod c + 1 < c" using False r by linarith
  have "(x + 1) div c = x div c"
    using x lt r by (metis add_nonneg_nonneg int_div_pos_eq zero_le_one)
  moreover have "(x + 1) mod c = x mod c + 1"
    using x lt r by (metis add_nonneg_nonneg int_mod_pos_eq zero_le_one)
  ultimately show ?thesis using r by simp
qed

lemma shift_mod:
  fixes y k c :: int
  assumes "c dvd k"
  shows "(y - k) mod c = 0 \<longleftrightarrow> y mod c = 0"
  using assms by (simp add: mod_eq_0_iff_dvd dvd_diff_left_iff)

lemma DayFromYear_step: "DayFromYear (y + 1) = DayFromYear y + DaysInYear y"
proof -
  have a: "(y + 1 - 1969) div 4 = (y - 1969) div 4 + (if y mod 4 = 0 then 1 else 0)"
    using div_step [of 4 "y - 1969"] shift_mod [of 4 1968 y] by (simp add: algebra_simps)
  have b: "(y + 1 - 1901) div 100 = (y - 1901) div 100 + (if y mod 100 = 0 then 1 else 0)"
    using div_step [of 100 "y - 1901"] shift_mod [of 100 1900 y] by (simp add: algebra_simps)
  have c: "(y + 1 - 1601) div 400 = (y - 1601) div 400 + (if y mod 400 = 0 then 1 else 0)"
    using div_step [of 400 "y - 1601"] shift_mod [of 400 1600 y] by (simp add: algebra_simps)
  have d: "y mod 100 = 0" if "y mod 400 = 0"
    using that by (simp add: mod_eq_0_iff_dvd) (rule dvd_trans [of 100 400], simp_all)
  have e: "y mod 4 = 0" if "y mod 100 = 0"
    using that by (simp add: mod_eq_0_iff_dvd) (rule dvd_trans [of 4 100], simp_all)
  show ?thesis
    unfolding DayFromYear_def DaysInYear_def a b c using d e by (auto simp: algebra_simps)
qed

lemma DaysInYear_cases: "DaysInYear y = 365 \<or> DaysInYear y = 366"
  by (simp add: DaysInYear_def)

lemma DayFromYear_less_step: "DayFromYear y < DayFromYear (y + 1)"
  using DayFromYear_step [of y] DaysInYear_cases [of y] by linarith

lemma DayFromYear_mono: "y \<le> y' \<Longrightarrow> DayFromYear y \<le> DayFromYear y'"
proof (induction y' rule: int_ge_induct)
  case base
  show ?case by simp
next
  case (step i)
  then show ?case using DayFromYear_less_step [of i] by linarith
qed

lemma DayFromYear_strict_mono: "y < y' \<Longrightarrow> DayFromYear y < DayFromYear y'"
  using DayFromYear_mono [of "y + 1" y'] DayFromYear_less_step [of y] by linarith

lemma year_up_bounds:
  "DayFromYear y \<le> dn \<Longrightarrow>
   DayFromYear (year_up dn y) \<le> dn \<and> dn < DayFromYear (year_up dn y + 1)"
proof (induction dn y rule: year_up.induct)
  case (1 dn y)
  show ?case
  proof (cases "DayFromYear (y + 1) \<le> dn")
    case True
    with "1.IH" show ?thesis by (simp add: year_up.simps [of dn y])
  next
    case False
    with "1.prems" show ?thesis by (simp add: year_up.simps [of dn y])
  qed
qed

lemma year_down_bounds:
  "dn < DayFromYear (y + 1) \<Longrightarrow>
   DayFromYear (year_down dn y) \<le> dn \<and> dn < DayFromYear (year_down dn y + 1)"
proof (induction dn y rule: year_down.induct)
  case (1 dn y)
  show ?case
  proof (cases "DayFromYear y \<le> dn")
    case True
    with "1.prems" show ?thesis by (simp add: year_down.simps [of dn y])
  next
    case False
    with "1.IH" show ?thesis by (simp add: year_down.simps [of dn y])
  qed
qed

lemma YearFromDay_bounds:
  "DayFromYear (YearFromDay dn) \<le> dn \<and> dn < DayFromYear (YearFromDay dn + 1)"
proof (cases "DayFromYear (1970 + (dn * 400) div 146097) \<le> dn")
  case True
  then show ?thesis
    using year_up_bounds [of "1970 + (dn * 400) div 146097" dn]
    by (simp add: YearFromDay_def Let_def)
next
  case False
  then show ?thesis
    using year_down_bounds [of dn "1970 + (dn * 400) div 146097 - 1"]
    by (simp add: YearFromDay_def Let_def)
qed

lemma YearFromDay_unique:
  assumes "DayFromYear y \<le> dn" and "dn < DayFromYear (y + 1)"
  shows "YearFromDay dn = y"
proof (rule ccontr)
  assume ne: "YearFromDay dn \<noteq> y"
  note b = YearFromDay_bounds [of dn]
  show False
  proof (cases "YearFromDay dn < y")
    case True
    then have "DayFromYear (YearFromDay dn + 1) \<le> DayFromYear y"
      by (intro DayFromYear_mono) simp
    with b assms show False by linarith
  next
    case False
    with ne have "y + 1 \<le> YearFromDay dn" by simp
    then have "DayFromYear (y + 1) \<le> DayFromYear (YearFromDay dn)"
      by (rule DayFromYear_mono)
    with b assms show False by linarith
  qed
qed

lemma YearFromDay_mono: "dn \<le> dn' \<Longrightarrow> YearFromDay dn \<le> YearFromDay dn'"
proof (rule ccontr)
  assume le: "dn \<le> dn'" and "\<not> YearFromDay dn \<le> YearFromDay dn'"
  then have "YearFromDay dn' + 1 \<le> YearFromDay dn" by simp
  then have "DayFromYear (YearFromDay dn' + 1) \<le> DayFromYear (YearFromDay dn)"
    by (rule DayFromYear_mono)
  with YearFromDay_bounds [of dn] YearFromDay_bounds [of dn'] le show False by linarith
qed

lemma YearFromDay_ge: "DayFromYear y \<le> dn \<Longrightarrow> y \<le> YearFromDay dn"
proof (rule ccontr)
  assume le: "DayFromYear y \<le> dn" and "\<not> y \<le> YearFromDay dn"
  then have "YearFromDay dn + 1 \<le> y" by simp
  then have "DayFromYear (YearFromDay dn + 1) \<le> DayFromYear y"
    by (rule DayFromYear_mono)
  with YearFromDay_bounds [of dn] le show False by linarith
qed

lemma DayWithinYear_bounds:
  "0 \<le> DayWithinYear t \<and> DayWithinYear t < 365 + InLeapYear t"
proof -
  have "DaysInYear (YearFromTime t) = 365 + InLeapYear t"
    using DaysInYear_cases [of "YearFromTime t"] by (auto simp: InLeapYear_def)
  then show ?thesis
    using YearFromDay_bounds [of "Day t"] DayFromYear_step [of "YearFromTime t"]
    by (simp add: DayWithinYear_def YearFromTime_def)
qed

lemma InLeapYear_cases: "InLeapYear t = 0 \<or> InLeapYear t = 1"
  by (simp add: InLeapYear_def)

lemma MonthFromTime_bounds: "0 \<le> MonthFromTime t \<and> MonthFromTime t \<le> 11"
  by (simp add: MonthFromTime_def Let_def)

lemma Day_decomposition:
  "Day t = DayFromYear (YearFromTime t) + month_start (InLeapYear t) (MonthFromTime t) +
           DateFromTime t - 1"
  by (simp add: DateFromTime_def DayWithinYear_def)

lemma MakeDay_in_year:
  "0 \<le> m \<Longrightarrow> m \<le> 11 \<Longrightarrow>
   MakeDay y m d = DayFromYear y + month_start (if DaysInYear y = 366 then 1 else 0) m + d - 1"
  by (simp add: MakeDay_def Let_def)

lemma MakeDay_current:
  "MakeDay (YearFromTime t) (MonthFromTime t) d = Day t + (d - DateFromTime t)"
  using MonthFromTime_bounds [of t] Day_decomposition [of t]
  by (simp add: MakeDay_in_year InLeapYear_def)

lemma MakeDate_Day: "MakeDate (Day t + k) (TimeWithinDay t) = t + k * msPerDay"
  by (simp add: MakeDate_def Day_def TimeWithinDay_def algebra_simps)

lemma setDate_week: "setDate tza now (getDate tza now - 7) = TimeClip (now - 7 * msPerDay)"
  using MakeDate_Day [of "LocalTime tza now" "- 7"]
  by (simp add: setDate_def getDate_def Let_def MakeDay_current UTC_def LocalTime_def)

lemma month_start_diff:
  "1 \<le> m \<Longrightarrow> m \<le> 11 \<Longrightarrow>
   month_start l m - month_start l (m - 1) = spec_days_in_month l (m - 1)"
proof -
  assume "1 \<le> m" "m \<le> 11"
  then consider "m = 1" | "m = 2" | "m = 3" | "m = 4" | "m = 5" | "m = 6" | "m = 7" | "m = 8"
    | "m = 9" | "m = 10" | "m = 11"
    by atomize_elim arith
  then show ?thesis
    by cases (simp_all add: month_start_def spec_days_in_month_def)
qed

lemma leap_flag: "(if DaysInYear y = 366 then 1 else 0) = DaysInYear y - (365::int)"
  using DaysInYear_cases [of y] by auto

lemma MakeDay_previous_month:
  "MakeDay (YearFromTime t) (MonthFromTime t - 1) (DateFromTime t) =
     Day t - (if MonthFromTime t = 0 then 31
              else spec_days_in_month (InLeapYear t) (MonthFromTime t - 1))"
proof (cases "MonthFromTime t = 0")
  case True
  have "MakeDay (YearFromTime t) (- 1) (DateFromTime t) =
      DayFromYear (YearFromTime t - 1) + month_start (DaysInYear (YearFromTime t - 1) - 365) 11 +
      DateFromTime t - 1"
    by (simp add: MakeDay_def Let_def leap_flag)
  moreover have "DayFromYear (YearFromTime t) =
      DayFromYear (YearFromTime t - 1) + DaysInYear (YearFromTime t - 1)"
    using DayFromYear_step [of "YearFromTime t - 1"] by simp
  ultimately show ?thesis
    using True Day_decomposition [of t] by (simp add: month_start_def)
next
  case False
  with MonthFromTime_bounds [of t] have m: "1 \<le> MonthFromTime t" "MonthFromTime t \<le> 11"
    by simp_all
  then have "MakeDay (YearFromTime t) (MonthFromTime t - 1) (DateFromTime t) =
      DayFromYear (YearFromTime t) + month_start (InLeapYear t) (MonthFromTime t - 1) +
      DateFromTime t - 1"
    by (simp add: MakeDay_in_year InLeapYear_def)
  then show ?thesis
    using False Day_decomposition [of t] month_start_diff [OF m, of "InLeapYear t"] by simp
qed

lemma month_start_leap:
  "0 \<le> m \<Longrightarrow> month_start l m = month_start 0 m + (if m \<le> 1 then 0 else l)"
  by (simp add: month_start_def)

lemma MakeDay_previous_year:
  "MakeDay (YearFromTime t - 1) (MonthFromTime t) (DateFromTime t) =
     Day t - (if MonthFromTime t \<le> 1 then DaysInYear (YearFromTime t - 1)
              else DaysInYear (YearFromTime t))"
proof -
  have "MakeDay (YearFromTime t - 1) (MonthFromTime t) (DateFromTime t) =
      DayFromYear (YearFromTime t - 1) +
      month_start (DaysInYear (YearFromTime t - 1) - 365) (MonthFromTime t) + DateFromTime t - 1"
    using MonthFromTime_bounds [of t] by (simp add: MakeDay_in_year leap_flag)
  moreover have "DayFromYear (YearFromTime t) =
      DayFromYear (YearFromTime t - 1) + DaysInYear (YearFromTime t - 1)"
    using DayFromYear_step [of "YearFromTime t - 1"] by simp
  moreover have "InLeapYear t = DaysInYear (YearFromTime t) - 365"
    using leap_flag [of "YearFromTime t"] by (simp add: InLeapYear_def)
  ultimately show ?thesis
    using Day_decomposition [of t] MonthFromTime_bounds [of t]
      month_start_leap [of "MonthFromTime t" "DaysInYear (YearFromTime t - 1) - 365"]
      month_start_leap [of "MonthFromTime t" "DaysInYear (YearFromTime t) - 365"]
    by simp
qed

lemma MakeDate_Day_minus: "MakeDate (Day t - k) (TimeWithinDay t) = t - k * msPerDay"
  using MakeDate_Day [of t "- k"] by simp

lemma setMonth_month: "setMonth tza now (getMonth tza now - 1) = spec_month_ago tza now"
  by (simp add: setMonth_def getMonth_def spec_month_ago_def Let_def MakeDay_previous_month
      MakeDate_Day_minus UTC_def LocalTime_def)

lemma setFullYear_year: "setFullYear tza now (getFullYear tza now - 1) = spec_year_ago tza now"
  by (simp add: setFullYear_def getFullYear_def spec_year_ago_def Let_def MakeDay_previous_year
      MakeDate_Day_minus UTC_def LocalTime_def)

subsection \<open>The time-window filter\<close>

lemma transactions_where_cases:
  "transactions_where tza now (Text ''day'') = DateEq (formatDate tza (Some now))"
  "transactions_where tza now (Text ''week'') = DateGe (formatDate tza (spec_week_ago now))"
  "transactions_where tza now (Text ''month'') = DateGe (formatDate tza (spec_month_ago tza now))"
  "transactions_where tza now (Text ''year'') = DateGe (formatDate tza (spec_year_ago tza now))"
  "p \<noteq> Text ''day'' \<Longrightarrow> p \<noteq> Text ''week'' \<Longrightarrow> p \<noteq> Text ''month'' \<Longrightarrow> p \<noteq> Text ''year'' \<Longrightarrow>
     transactions_where tza now p = NoWhere"
  by (simp_all add: transactions_where_def Let_def setDate_week setMonth_month setFullYear_year
      spec_week_ago_def)

text \<open>
  C2. For every clock and time zone offset, the filter of GET /api/transactions yields:
  for day, an equality match against today's date as formatDate writes it; for week, a
  lower bound on the date, formatDate of now minus 7 days; for month, the lower bound
  formatDate of now minus one calendar month (as many days as the previous calendar month
  has, not a fixed 30); for year, the lower bound formatDate of now minus one calendar
  year; and for every other period value, among them all, an absent or empty one and
  one that is not a string, no filter at all. The filter is a total function: it never
  fails.
\<close>

theorem time_window_filter:
  "transactions_where tza now (Text ''day'') = DateEq (formatDate tza (Some now)) \<and>
   transactions_where tza now (Text ''week'') = DateGe (formatDate tza (spec_week_ago now)) \<and>
   transactions_where tza now (Text ''month'') = DateGe (formatDate tza (spec_month_ago tza now)) \<and>
   transactions_where tza now (Text ''year'') = DateGe (formatDate tza (spec_year_ago tza now)) \<and>
   (p \<noteq> Text ''day'' \<and> p \<noteq> Text ''week'' \<and> p \<noteq> Text ''month'' \<and> p \<noteq> Text ''year'' \<longrightarrow>
      transactions_where tza now p = NoWhere)"
proof -
  have week: "setDate tza now (getDate tza now - 7) = spec_week_ago now"
    by (simp add: setDate_week spec_week_ago_def)
  have month: "setMonth tza now (getMonth tza now - 1) = spec_month_ago tza now"
    by (rule setMonth_month)
  have year: "setFullYear tza now (getFullYear tza now - 1) = spec_year_ago tza now"
    by (rule setFullYear_year)
  have other: "transactions_where tza now p = NoWhere"
    if "p \<noteq> Text ''day''" "p \<noteq> Text ''week''" "p \<noteq> Text ''month''" "p \<noteq> Text ''year''"
    using that by (simp add: transactions_where_def)
  show ?thesis
    using other by (simp add: transactions_where_def Let_def week month year)
qed

lemma filter_examples:
  "transactions_where 0 1719792000000 (Text ''day'') = DateEq ''2024-07-01''"
  "formatDate 0 (spec_week_ago 1719792000000) = ''2024-06-24''"
  "formatDate 0 (spec_month_ago 0 1719792000000) = ''2024-06-01''"
  "formatDate 0 (spec_year_ago 0 1719792000000) = ''2023-07-01''"
  "formatDate 0 (spec_month_ago 0 1711843200000) = ''2024-03-02''"
  by code_simp+

theorem time_window_filter_witness:
  "transactions_where 0 1719792000000 (Text ''all'') = NoWhere \<and>
   transactions_where 0 1719792000000 (Text ''fortnight'') = NoWhere \<and>
   transactions_where 0 1719792000000 Absent = NoWhere \<and>
   transactions_where 0 1719792000000 Other = NoWhere \<and>
   transactions_where 0 1719792000000 (Text ''day'') = DateEq ''2024-07-01'' \<and>
   transactions_where 0 1719792000000 (Text ''week'') = DateGe ''2024-06-24'' \<and>
   transactions_where 0 1719792000000 (Text ''month'') = DateGe ''2024-06-01'' \<and>
   transactions_where 0 1719792000000 (Text ''year'') = DateGe ''2023-07-01'' \<and>
   transactions_where 0 1711843200000 (Text ''month'') = DateGe ''2024-03-02''"
  using time_window_filter [of 0 1719792000000 "Text ''all''"]
    time_window_filter [of 0 1719792000000 "Text ''fortnight''"]
    time_window_filter [of 0 1719792000000 Absent]
    time_window_filter [of 0 1719792000000 Other]
    time_window_filter [of 0 1711843200000 Other]
  by (simp add: filter_examples)

lemma month_start_bounds:
  "0 \<le> m \<Longrightarrow> m \<le> 11 \<Longrightarrow> l = 0 \<or> l = 1 \<Longrightarrow>
   0 \<le> month_start l m \<and> month_start l m \<le> 334 + l"
  by (auto simp: month_start_def)

text \<open>
  ECMA-262 has MakeDay find a time whose year, month and date are the year and month asked
  for and 1; the day the model computes is the day of such a time.
\<close>

lemma MakeDay_first_of_month:
  assumes m: "0 \<le> m" "m \<le> 11"
  shows "YearFromTime (MakeDate (MakeDay y m 1) 0) = y \<and>
         MonthFromTime (MakeDate (MakeDay y m 1) 0) = m \<and>
         DateFromTime (MakeDate (MakeDay y m 1) 0) = 1"
proof -
  define l :: int where "l = (if DaysInYear y = 366 then 1 else 0)"
  define t where "t = MakeDate (MakeDay y m 1) 0"
  have l01: "l = 0 \<or> l = 1" by (simp add: l_def)
  have ly: "DaysInYear y = 365 + l"
    using DaysInYear_cases [of y] by (auto simp: l_def)
  have d: "Day t = DayFromYear y + month_start l m"
    using m by (simp add: t_def MakeDate_def Day_def MakeDay_in_year l_def msPerDay_def)
  note b = month_start_bounds [OF m l01]
  have yr: "YearFromTime t = y"
    unfolding YearFromTime_def
    using b ly DayFromYear_step [of y] by (intro YearFromDay_unique) (simp_all add: d)
  have leap: "InLeapYear t = l"
    by (simp add: InLeapYear_def yr l_def)
  have w: "DayWithinYear t = month_start l m"
    by (simp add: DayWithinYear_def yr d)
  from m consider "m = 0" | "m = 1" | "m = 2" | "m = 3" | "m = 4" | "m = 5" | "m = 6" | "m = 7"
    | "m = 8" | "m = 9" | "m = 10" | "m = 11"
    by atomize_elim arith
  then have mo: "MonthFromTime t = m"
    using l01 by cases (auto simp: MonthFromTime_def Let_def w leap month_start_def)
  have "DateFromTime t = 1"
    by (simp add: DateFromTime_def w leap mo)
  with yr mo show ?thesis by (simp add: t_def)
qed

subsection \<open>The order of formatted dates\<close>

lemma of_char_digit_char: "d < 10 \<Longrightarrow> of_char (digit_char d) = 48 + d"
  by (simp add: digit_char_def)

lemma digit_char_less: "a < 10 \<Longrightarrow> b < 10 \<Longrightarrow> digit_char a < digit_char b \<longleftrightarrow> a < b"
  by (simp add: less_char_def of_char_digit_char)

lemma digit_char_eq: "a < 10 \<Longrightarrow> b < 10 \<Longrightarrow> digit_char a = digit_char b \<longleftrightarrow> a = b"
  by (metis add_left_cancel of_char_digit_char)

lemma digit_char_zero: "digit_char 0 = CHR ''0''"
  by code_simp

lemma div_mod_10_less:
  fixes n m :: nat
  assumes "n < m"
  shows "n div 10 < m div 10 \<or> (n div 10 = m div 10 \<and> n mod 10 < m mod 10)"
proof -
  have "n div 10 \<le> m div 10"
    using assms by (simp add: div_le_mono)
  moreover have "n mod 10 < m mod 10" if "n div 10 = m div 10"
    using assms that by (metis div_mult_mod_eq nat_add_left_cancel_less)
  ultimately show ?thesis by linarith
qed

lemma snoc_less_same_length:
  "length xs = length ys \<Longrightarrow>
   (xs @ [a] < ys @ [b]) \<longleftrightarrow> (xs < ys \<or> (xs = ys \<and> a < (b::char)))"
  by (induction xs ys rule: list_induct2) auto

lemma append_less_same_length:
  "length xs = length ys \<Longrightarrow>
   (xs @ u < ys @ v) \<longleftrightarrow> (xs < ys \<or> (xs = ys \<and> u < (v::string)))"
  by (induction xs ys rule: list_induct2) auto

lemma append_le_same_length:
  "length xs = length ys \<Longrightarrow>
   (xs @ u \<le> ys @ v) \<longleftrightarrow> (xs < ys \<or> (xs = ys \<and> u \<le> (v::string)))"
  by (induction xs ys rule: list_induct2) auto

lemma dec_nonempty: "dec n \<noteq> []"
  by (simp add: dec.simps [of n])

lemma dec_less:
  "n < m \<Longrightarrow> length (dec n) = length (dec m) \<Longrightarrow> dec n < dec m"
proof (induction n arbitrary: m rule: dec.induct)
  case (1 n)
  show ?case
  proof (cases "n < 10")
    case True
    then have n: "dec n = [digit_char n]" by (simp add: dec.simps [of n])
    have "m < 10"
    proof (rule ccontr)
      assume "\<not> m < 10"
      then have "dec m = dec (m div 10) @ [digit_char (m mod 10)]"
        by (simp add: dec.simps [of m])
      with "1.prems"(2) n dec_nonempty [of "m div 10"] show False by simp
    qed
    then have "dec m = [digit_char m]" by (simp add: dec.simps [of m])
    with n True \<open>m < 10\<close> "1.prems"(1) show ?thesis by (simp add: digit_char_less)
  next
    case False
    with "1.prems"(1) have m10: "\<not> m < 10" by simp
    have n: "dec n = dec (n div 10) @ [digit_char (n mod 10)]"
      using False by (simp add: dec.simps [of n])
    have m: "dec m = dec (m div 10) @ [digit_char (m mod 10)]"
      using m10 by (simp add: dec.simps [of m])
    from "1.prems"(2) n m have len: "length (dec (n div 10)) = length (dec (m div 10))"
      by simp
    from "1.prems"(1) consider "n div 10 < m div 10" | "n div 10 = m div 10" "n mod 10 < m mod 10"
      using div_mod_10_less [of n m] by blast
    then show ?thesis
    proof cases
      case 1
      then have "dec (n div 10) < dec (m div 10)"
        using "1.IH" [OF False _ len] by simp
      then show ?thesis
        unfolding n m using len by (simp add: snoc_less_same_length)
    next
      case 2
      then show ?thesis
        unfolding n m by (simp add: snoc_less_same_length digit_char_less)
    qed
  qed
qed

lemma length_dec_four: "1000 \<le> n \<Longrightarrow> n \<le> 9999 \<Longrightarrow> length (dec n) = 4"
proof -
  assume a: "1000 \<le> n" "n \<le> 9999"
  then have "100 \<le> n div 10" "n div 10 \<le> 999" by arith+
  moreover from this have "10 \<le> n div 10 div 10" "n div 10 div 10 \<le> 99" by arith+
  moreover from this have "n div 10 div 10 div 10 < 10" by arith
  ultimately show ?thesis
    using a
    by (simp add: dec.simps [of n] dec.simps [of "n div 10"] dec.simps [of "n div 10 div 10"]
        dec.simps [of "n div 10 div 10 div 10"])
qed

lemma year_str_less:
  assumes "1000 \<le> y1" "y1 < y2" "y2 \<le> 9999"
  shows "js_int_str y1 < js_int_str y2" and "length (js_int_str y1) = length (js_int_str y2)"
proof -
  have l1: "length (dec (nat y1)) = 4" using assms by (intro length_dec_four) simp_all
  have l2: "length (dec (nat y2)) = 4" using assms by (intro length_dec_four) simp_all
  have "dec (nat y1) < dec (nat y2)"
    using assms l1 l2 by (intro dec_less) simp_all
  then show "js_int_str y1 < js_int_str y2"
    using assms by (simp add: js_int_str_def)
  show "length (js_int_str y1) = length (js_int_str y2)"
    using assms l1 l2 by (simp add: js_int_str_def)
qed

lemma pad2:
  assumes "0 \<le> k" "k < 100"
  shows "padStart 2 (CHR ''0'') (js_int_str k) = [digit_char (nat k div 10), digit_char (nat k mod 10)]"
proof (cases "k < 10")
  case True
  with assms have k: "nat k < 10" by simp
  then have "dec (nat k) = [digit_char (nat k)]" by (simp add: dec.simps [of "nat k"])
  with k assms show ?thesis
    by (simp add: padStart_def js_int_str_def digit_char_zero)
next
  case False
  with assms have "nat k div 10 < 10" "\<not> nat k < 10" by arith+
  then have "dec (nat k) = [digit_char (nat k div 10), digit_char (nat k mod 10)]"
    by (simp add: dec.simps [of "nat k"] dec.simps [of "nat k div 10"])
  with assms show ?thesis
    by (simp add: padStart_def js_int_str_def)
qed

lemma pad2_less:
  assumes "0 \<le> a" "a < b" "b < 100"
  shows "padStart 2 (CHR ''0'') (js_int_str a) < padStart 2 (CHR ''0'') (js_int_str b)"
proof -
  from assms have "nat a < nat b" by simp
  then consider "nat a div 10 < nat b div 10"
    | "nat a div 10 = nat b div 10" "nat a mod 10 < nat b mod 10"
    using div_mod_10_less [of "nat a" "nat b"] by blast
  moreover have "nat a div 10 < 10" "nat b div 10 < 10" using assms by arith+
  ultimately show ?thesis
    using assms by cases (simp_all add: pad2 digit_char_less)
qed

lemma length_pad2: "0 \<le> k \<Longrightarrow> k < 100 \<Longrightarrow> length (padStart 2 (CHR ''0'') (js_int_str k)) = 2"
  by (simp add: pad2)

lemma MonthFromTime_mono:
  assumes "InLeapYear a = InLeapYear b" and "DayWithinYear a \<le> DayWithinYear b"
  shows "MonthFromTime a \<le> MonthFromTime b"
  using assms by (simp add: MonthFromTime_def Let_def)

lemma DateFromTime_bounds: "1 \<le> DateFromTime t \<and> DateFromTime t \<le> 31"
  using DayWithinYear_bounds [of t] InLeapYear_cases [of t]
  by (auto simp: DateFromTime_def MonthFromTime_def month_start_def Let_def)

lemma calendar_mono:
  assumes "Day a \<le> Day b"
  shows "YearFromTime a < YearFromTime b \<or>
         (YearFromTime a = YearFromTime b \<and>
          (MonthFromTime a < MonthFromTime b \<or>
           (MonthFromTime a = MonthFromTime b \<and> DateFromTime a \<le> DateFromTime b)))"
proof (cases "YearFromTime a = YearFromTime b")
  case False
  with YearFromDay_mono [OF assms] show ?thesis by (simp add: YearFromTime_def)
next
  case True
  then have l: "InLeapYear a = InLeapYear b" by (simp add: InLeapYear_def)
  have w: "DayWithinYear a \<le> DayWithinYear b"
    using assms True by (simp add: DayWithinYear_def)
  have m: "MonthFromTime a \<le> MonthFromTime b"
    using l w by (rule MonthFromTime_mono)
  show ?thesis
  proof (cases "MonthFromTime a = MonthFromTime b")
    case False
    with m True show ?thesis by simp
  next
    case m': True
    with l w have "DateFromTime a \<le> DateFromTime b" by (simp add: DateFromTime_def)
    with True m' show ?thesis by simp
  qed
qed

lemma formatDate_parts:
  "formatDate tza (Some t) =
     js_int_str (YearFromTime (LocalTime tza t)) @
     CHR ''-'' # padStart 2 (CHR ''0'') (js_int_str (MonthFromTime (LocalTime tza t) + 1)) @
     CHR ''-'' # padStart 2 (CHR ''0'') (js_int_str (DateFromTime (LocalTime tza t)))"
  by (simp add: formatDate_def getFullYear_def getMonth_def getDate_def Let_def)

lemma formatDate_mono:
  assumes d: "Day (LocalTime tza a) \<le> Day (LocalTime tza b)"
      and lo: "1000 \<le> YearFromTime (LocalTime tza a)"
      and hi: "YearFromTime (LocalTime tza b) \<le> 9999"
  shows "formatDate tza (Some a) \<le> formatDate tza (Some b)"
proof -
  define la lb where "la = LocalTime tza a" and "lb = LocalTime tza b"
  note c = calendar_mono [OF d, folded la_def lb_def]
  have ma: "0 \<le> MonthFromTime la + 1" "MonthFromTime la + 1 < 100"
    and mb: "0 \<le> MonthFromTime lb + 1" "MonthFromTime lb + 1 < 100"
    using MonthFromTime_bounds [of la] MonthFromTime_bounds [of lb] by simp_all
  have da: "0 \<le> DateFromTime la" "DateFromTime la < 100"
    and db: "0 \<le> DateFromTime lb" "DateFromTime lb < 100"
    using DateFromTime_bounds [of la] DateFromTime_bounds [of lb] by simp_all
  have lm: "length (padStart 2 (CHR ''0'') (js_int_str (MonthFromTime la + 1))) =
            length (padStart 2 (CHR ''0'') (js_int_str (MonthFromTime lb + 1)))"
    using ma mb by (simp add: length_pad2)
  have tail: "padStart 2 (CHR ''0'') (js_int_str (MonthFromTime la + 1)) @
        CHR ''-'' # padStart 2 (CHR ''0'') (js_int_str (DateFromTime la))
      \<le> padStart 2 (CHR ''0'') (js_int_str (MonthFromTime lb + 1)) @
        CHR ''-'' # padStart 2 (CHR ''0'') (js_int_str (DateFromTime lb))"
    if y: "YearFromTime la = YearFromTime lb"
  proof (cases "MonthFromTime la = MonthFromTime lb")
    case True
    with c y have "DateFromTime la \<le> DateFromTime lb" by simp
    then have "padStart 2 (CHR ''0'') (js_int_str (DateFromTime la))
        \<le> padStart 2 (CHR ''0'') (js_int_str (DateFromTime lb))"
      using pad2_less [of "DateFromTime la" "DateFromTime lb"] da db
      by (cases "DateFromTime la = DateFromTime lb") simp_all
    with True show ?thesis by (simp add: append_le_same_length)
  next
    case False
    with c y have "MonthFromTime la + 1 < MonthFromTime lb + 1" by simp
    then have "padStart 2 (CHR ''0'') (js_int_str (MonthFromTime la + 1))
        < padStart 2 (CHR ''0'') (js_int_str (MonthFromTime lb + 1))"
      using ma mb by (intro pad2_less) simp_all
    then show ?thesis
      using lm by (simp add: append_le_same_length)
  qed
  show ?thesis
  proof (cases "YearFromTime la = YearFromTime lb")
    case True
    with tail show ?thesis
      by (simp add: formatDate_parts la_def [symmetric] lb_def [symmetric] append_le_same_length)
  next
    case False
    with c have lt: "YearFromTime la < YearFromTime lb" by simp
    have "js_int_str (YearFromTime la) < js_int_str (YearFromTime lb)"
      and "length (js_int_str (YearFromTime la)) = length (js_int_str (YearFromTime lb))"
      using year_str_less [OF _ lt] lo hi by (simp_all add: la_def lb_def)
    then show ?thesis
      by (simp add: formatDate_parts la_def [symmetric] lb_def [symmetric] append_le_same_length)
  qed
qed




subsection \<open>Dates after today\<close>

lemma Day_minus_days: "Day (t - k * msPerDay) = Day t - k"
  using div_mult_self1 [of 86400000 t "- k"] by (simp add: Day_def msPerDay_def)

lemma Day_time_bounds: "Day t * msPerDay \<le> t \<and> t < (Day t + 1) * msPerDay"
proof -
  have "t = Day t * msPerDay + t mod msPerDay"
    by (simp add: Day_def)
  moreover have "0 \<le> t mod msPerDay" "t mod msPerDay < msPerDay"
    by (simp_all add: msPerDay_def)
  ultimately show ?thesis by (simp add: algebra_simps)
qed

lemma DayFromYear_1001: "DayFromYear 1001 = - 353920"
  by (simp add: DayFromYear_def)

lemma DayFromYear_10000: "DayFromYear 10000 = 2932897"
  by (simp add: DayFromYear_def)

lemma earlier_date_le:
  assumes lo: "1001 \<le> YearFromTime (LocalTime tza now)"
      and hi: "YearFromTime (LocalTime tza now) \<le> 9999"
      and tz: "\<bar>tza\<bar> \<le> msPerDay"
      and k: "0 \<le> k" "k \<le> 366"
      and lb: "DayFromYear (YearFromTime (LocalTime tza now) - 1) \<le> Day (LocalTime tza now) - k"
  shows "formatDate tza (TimeClip (now - k * msPerDay)) \<le> formatDate tza (Some now)"
proof -
  define lt where "lt = LocalTime tza now"
  define e where "e = now - k * msPerDay"
  have le: "LocalTime tza e = lt - k * msPerDay"
    by (simp add: e_def lt_def LocalTime_def)
  have de: "Day (LocalTime tza e) = Day lt - k"
    by (simp add: le Day_minus_days)
  have "DayFromYear 1001 \<le> DayFromYear (YearFromTime lt)"
    using lo by (intro DayFromYear_mono) (simp add: lt_def)
  moreover have "DayFromYear (YearFromTime lt + 1) \<le> DayFromYear 10000"
    using hi by (intro DayFromYear_mono) (simp add: lt_def)
  ultimately have dl: "- 353920 \<le> Day lt" "Day lt + 1 \<le> 2932897"
    using YearFromDay_bounds [of "Day lt"]
    by (simp_all add: YearFromTime_def DayFromYear_1001 DayFromYear_10000)
  have "- 353920 * msPerDay \<le> Day lt * msPerDay" "(Day lt + 1) * msPerDay \<le> 2932897 * msPerDay"
    using dl by (simp_all add: msPerDay_def)
  then have ltb: "- 353920 * msPerDay \<le> lt" "lt < 2932897 * msPerDay"
    using Day_time_bounds [of lt] by linarith+
  have "k * msPerDay \<le> 366 * msPerDay" "0 \<le> k * msPerDay"
    using k by (simp_all add: msPerDay_def)
  then have "\<bar>e\<bar> \<le> 8640000000000000"
    using ltb tz by (simp add: e_def lt_def LocalTime_def msPerDay_def)
  then have clip: "TimeClip e = Some e"
    by (simp add: TimeClip_def)
  have "YearFromTime lt - 1 \<le> YearFromTime (LocalTime tza e)"
    using lb by (simp add: YearFromTime_def de lt_def [symmetric] YearFromDay_ge)
  with lo have ylo: "1000 \<le> YearFromTime (LocalTime tza e)"
    by (simp add: lt_def)
  have "Day (LocalTime tza e) \<le> Day (LocalTime tza now)"
    using k by (simp add: de lt_def)
  then have "formatDate tza (Some e) \<le> formatDate tza (Some now)"
    using ylo hi by (rule formatDate_mono)
  then show ?thesis
    by (simp add: clip e_def [symmetric])
qed

lemma Day_year_start:
  "DayFromYear (YearFromTime t - 1) + DaysInYear (YearFromTime t - 1) \<le> Day t"
  using YearFromDay_bounds [of "Day t"] DayFromYear_step [of "YearFromTime t - 1"]
  by (simp add: YearFromTime_def)

lemma week_bound_le:
  assumes "1001 \<le> getFullYear tza now" "getFullYear tza now \<le> 9999" "\<bar>tza\<bar> \<le> msPerDay"
  shows "formatDate tza (spec_week_ago now) \<le> formatDate tza (Some now)"
proof -
  have "DayFromYear (YearFromTime (LocalTime tza now) - 1) \<le> Day (LocalTime tza now) - 7"
    using Day_year_start [of "LocalTime tza now"]
      DaysInYear_cases [of "YearFromTime (LocalTime tza now) - 1"] by linarith
  then show ?thesis
    using assms earlier_date_le [of tza now 7]
    by (simp add: spec_week_ago_def getFullYear_def)
qed

lemma spec_days_in_month_bounds:
  "l = 0 \<or> l = 1 \<Longrightarrow> 28 \<le> spec_days_in_month l m \<and> spec_days_in_month l m \<le> 31"
  by (auto simp: spec_days_in_month_def)

lemma month_bound_le:
  assumes "1001 \<le> getFullYear tza now" "getFullYear tza now \<le> 9999" "\<bar>tza\<bar> \<le> msPerDay"
  shows "formatDate tza (spec_month_ago tza now) \<le> formatDate tza (Some now)"
proof -
  define k where "k = (if MonthFromTime (LocalTime tza now) = 0 then 31
      else spec_days_in_month (InLeapYear (LocalTime tza now)) (MonthFromTime (LocalTime tza now) - 1))"
  have kb: "0 \<le> k" "k \<le> 31"
    using spec_days_in_month_bounds [OF InLeapYear_cases [of "LocalTime tza now"],
        of "MonthFromTime (LocalTime tza now) - 1"]
    by (auto simp: k_def)
  then have "DayFromYear (YearFromTime (LocalTime tza now) - 1) \<le> Day (LocalTime tza now) - k"
    using Day_year_start [of "LocalTime tza now"]
      DaysInYear_cases [of "YearFromTime (LocalTime tza now) - 1"] by linarith
  then have "formatDate tza (TimeClip (now - k * msPerDay)) \<le> formatDate tza (Some now)"
    using assms kb earlier_date_le [of tza now k] by (simp add: getFullYear_def)
  then show ?thesis
    unfolding spec_month_ago_def Let_def k_def .
qed

lemma month_start_from_march: "2 \<le> m \<Longrightarrow> 0 \<le> l \<Longrightarrow> 59 \<le> month_start l m"
  by (simp add: month_start_def)

lemma year_bound_le:
  assumes "1001 \<le> getFullYear tza now" "getFullYear tza now \<le> 9999" "\<bar>tza\<bar> \<le> msPerDay"
  shows "formatDate tza (spec_year_ago tza now) \<le> formatDate tza (Some now)"
proof -
  define lt where "lt = LocalTime tza now"
  define k where "k = (if MonthFromTime lt \<le> 1 then DaysInYear (YearFromTime lt - 1)
      else DaysInYear (YearFromTime lt))"
  have kb: "0 \<le> k" "k \<le> 366"
    using DaysInYear_cases [of "YearFromTime lt - 1"] DaysInYear_cases [of "YearFromTime lt"]
    by (auto simp: k_def)
  have "DayFromYear (YearFromTime lt - 1) \<le> Day lt - k"
  proof (cases "MonthFromTime lt \<le> 1")
    case True
    then show ?thesis
      using Day_year_start [of lt] by (simp add: k_def)
  next
    case False
    then have "59 \<le> month_start (InLeapYear lt) (MonthFromTime lt)"
      using InLeapYear_cases [of lt] by (intro month_start_from_march) auto
    then have "DayFromYear (YearFromTime lt) + 59 \<le> Day lt"
      using Day_decomposition [of lt] DateFromTime_bounds [of lt] by linarith
    moreover have "DayFromYear (YearFromTime lt) =
        DayFromYear (YearFromTime lt - 1) + DaysInYear (YearFromTime lt - 1)"
      using DayFromYear_step [of "YearFromTime lt - 1"] by simp
    ultimately show ?thesis
      using kb DaysInYear_cases [of "YearFromTime lt - 1"] by linarith
  qed
  then have "formatDate tza (TimeClip (now - k * msPerDay)) \<le> formatDate tza (Some now)"
    using assms kb earlier_date_le [of tza now k] by (simp add: getFullYear_def lt_def)
  then show ?thesis
    unfolding spec_year_ago_def Let_def k_def lt_def .
qed

lemma set_listTransactions:
  "set (listTransactions tza now p s) =
     {t \<in> set (transactions s). matches (transactions_where tza now p) t}"
  by (simp add: listTransactions_def db_all_def order_by_timestamp_desc_def Let_def)

text \<open>
  C10. The period filters put no upper bound on the date: every stored transaction whose
  date is greater than today's date (as strings, the way SQLite compares them) is
  returned by listTransactions for week, month and year, and is not returned for day.
  The clock is taken in the years 1001 to 9999 of local time, where the year is written
  with four digits, and the time zone offset is at most a day.
\<close>

theorem future_dates_pass_lower_bounds:
  assumes "1001 \<le> getFullYear tza now" and "getFullYear tza now \<le> 9999"
      and "\<bar>tza\<bar> \<le> msPerDay"
      and "t \<in> set (transactions s)"
      and "formatDate tza (Some now) < date t"
  shows "t \<in> set (listTransactions tza now (Text ''week'') s) \<and>
         t \<in> set (listTransactions tza now (Text ''month'') s) \<and>
         t \<in> set (listTransactions tza now (Text ''year'') s) \<and>
         t \<notin> set (listTransactions tza now (Text ''day'') s)"
proof -
  note b = week_bound_le [OF assms(1-3)] month_bound_le [OF assms(1-3)]
    year_bound_le [OF assms(1-3)]
  from b assms(5) have
    "formatDate tza (spec_week_ago now) \<le> date t"
    "formatDate tza (spec_month_ago tza now) \<le> date t"
    "formatDate tza (spec_year_ago tza now) \<le> date t"
    by simp_all
  moreover from assms(5) have "date t \<noteq> formatDate tza (Some now)"
    by simp
  ultimately show ?thesis
    using assms(4) by (simp add: set_listTransactions transactions_where_cases)
qed

lemma future_example:
  "getFullYear 0 1719792000000 = 2024"
  "formatDate 0 (Some 1719792000000) = ''2024-07-01''"
  by code_simp+

theorem future_dates_pass_lower_bounds_witness:
  "(1001::int) \<le> getFullYear 0 1719792000000 \<and> getFullYear 0 1719792000000 \<le> 9999 \<and>
   \<bar>0::int\<bar> \<le> msPerDay \<and>
   future_transaction \<in> set (transactions (sample_server\<lparr>transactions := [future_transaction]\<rparr>)) \<and>
   formatDate 0 (Some 1719792000000) < date future_transaction \<and>
   future_transaction \<in> set (listTransactions 0 1719792000000 (Text ''week'')
       (sample_server\<lparr>transactions := [future_transaction]\<rparr>)) \<and>
   future_transaction \<in> set (listTransactions 0 1719792000000 (Text ''month'')
       (sample_server\<lparr>transactions := [future_transaction]\<rparr>)) \<and>
   future_transaction \<in> set (listTransactions 0 1719792000000 (Text ''year'')
       (sample_server\<lparr>transactions := [future_transaction]\<rparr>)) \<and>
   future_transaction \<notin> set (listTransactions 0 1719792000000 (Text ''day'')
       (sample_server\<lparr>transactions := [future_transaction]\<rparr>))"
  using future_dates_pass_lower_bounds [of 0 1719792000000 future_transaction
      "sample_server\<lparr>transactions := [future_transaction]\<rparr>"]
  by (simp add: future_example future_transaction_def msPerDay_def)

subsection \<open>The three handlers select the same rows\<close>

lemma formatDate_new_year_2024: "formatDate 0 (Some 1704067200000) = ''2024-01-01''"
  by code_simp

lemma toISOString_new_year_2024: "toISOString 1704067200000 = ''2024-01-01T00:00:00.000Z''"
  by code_simp

lemma mset_db_all: "mset (db_all w ordered tbl) = mset (filter (matches w) tbl)"
  by (simp add: db_all_def order_by_timestamp_desc_def Let_def)

text \<open>
  C9. For every period value and every table, the rows computeAnalytics considers and
  the rows exportTransactions renders are the rows listTransactions returns: the three
  handlers build the same WHERE clause from the period and the clock, so they select the
  same rows (as multisets, hence as sets; the export even in the same order). Hence
  computeAnalytics aggregates a rearrangement of the rows that listTransactions returns
  for the same period, and the transaction count it reports is their number;
  exportTransactions renders exactly the list that listTransactions returns, as CSV or,
  for any other format, as the JSON summary with that list.
\<close>

theorem period_filter_shared:
  "analytics_where tza now p = transactions_where tza now p \<and>
   export_where tza now p = transactions_where tza now p \<and>
   mset (analytics_rows tza now p s) = mset (listTransactions tza now p s) \<and>
   set (analytics_rows tza now p s) = set (listTransactions tza now p s) \<and>
   export_rows tza now p s = listTransactions tza now p s \<and>
   (\<exists>rows. mset rows = mset (listTransactions tza now p s) \<and>
      computeAnalytics tza now p s = analytics_of_rows rows) \<and>
   (computeAnalytics tza now p s = Inr a \<longrightarrow>
      transactionCount a = length (listTransactions tza now p s)) \<and>
   exportTransactions num_str tza now p fmt s =
     (if fmt = Text ''csv'' then Csv (csv_of_rows num_str (listTransactions tza now p s))
      else JsonExport
        \<lparr>totalTransactions = length (listTransactions tza now p s),
         summary_totalIncome =
           foldl (\<lambda>sum t. sum + amountPaid t) 0 (listTransactions tza now p s),
         summary_totalExpenses =
           foldl (\<lambda>sum t. sum + expenses t) 0 (listTransactions tza now p s),
         netProfit =
           foldl (\<lambda>sum t. sum + amountPaid t) 0 (listTransactions tza now p s) -
           foldl (\<lambda>sum t. sum + expenses t) 0 (listTransactions tza now p s),
         exportDate = toISOString now,
         summary_filter = (if truthy p then p else Text ''all'')\<rparr>
        (listTransactions tza now p s))"
proof -
  have a: "analytics_where tza now p = transactions_where tza now p"
    by (simp add: analytics_where_def transactions_where_def)
  have e: "export_where tza now p = transactions_where tza now p"
    by (simp add: export_where_def transactions_where_def)
  have m: "mset (analytics_rows tza now p s) = mset (listTransactions tza now p s)"
    by (simp add: analytics_rows_def listTransactions_def mset_db_all a)
  have st: "set (analytics_rows tza now p s) = set (listTransactions tza now p s)"
    using m by (rule mset_eq_setD)
  have x: "export_rows tza now p s = listTransactions tza now p s"
    by (simp add: export_rows_def listTransactions_def e)
  have ex: "\<exists>rows. mset rows = mset (listTransactions tza now p s) \<and>
      computeAnalytics tza now p s = analytics_of_rows rows"
    using m by (auto simp add: computeAnalytics_def)
  have cnt: "transactionCount a = length (listTransactions tza now p s)"
    if r: "computeAnalytics tza now p s = Inr a"
  proof -
    have "transactionCount a = length (analytics_rows tza now p s)"
      using r by (auto simp add: computeAnalytics_def analytics_of_rows_def Let_def
          split: sum.splits)
    also have "\<dots> = size (mset (analytics_rows tza now p s))"
      by simp
    also have "\<dots> = length (listTransactions tza now p s)"
      by (simp only: m size_mset)
    finally show ?thesis .
  qed
  have out: "exportTransactions num_str tza now p fmt s =
     (if fmt = Text ''csv'' then Csv (csv_of_rows num_str (listTransactions tza now p s))
      else JsonExport
        \<lparr>totalTransactions = length (listTransactions tza now p s),
         summary_totalIncome =
           foldl (\<lambda>sum t. sum + amountPaid t) 0 (listTransactions tza now p s),
         summary_totalExpenses =
           foldl (\<lambda>sum t. sum + expenses t) 0 (listTransactions tza now p s),
         netProfit =
           foldl (\<lambda>sum t. sum + amountPaid t) 0 (listTransactions tza now p s) -
           foldl (\<lambda>sum t. sum + expenses t) 0 (listTransactions tza now p s),
         exportDate = toISOString now,
         summary_filter = (if truthy p then p else Text ''all'')\<rparr>
        (listTransactions tza now p s))"
    by (simp add: exportTransactions_def Let_def x)
  from a e m st x ex cnt out show ?thesis
    by (intro conjI impI)
qed

text \<open>
  An instance: a table of two rows, one dated 2024-01-01 and one dated 2025-01-01, read
  on 1 January 2024 with the period \<open>day\<close>. All three operations keep the first row
  only.
\<close>

theorem period_filter_shared_witness:
  "listTransactions 0 1704067200000 (Text ''day'') two_day_server = [sample_transaction] \<and>
   computeAnalytics 0 1704067200000 (Text ''day'') two_day_server =
     Inr \<lparr>totalIncome = 10, totalExpenses = 2, netIncome = 8,
          servicePerformance = [(''Photography'', 0), (''Makeup'', 0), (''Product Sales'', 0), (''X'', 10)],
          transactionCount = 1\<rparr> \<and>
   transactionCount
       \<lparr>totalIncome = 10, totalExpenses = 2, netIncome = 8,
        servicePerformance = [(''Photography'', 0), (''Makeup'', 0), (''Product Sales'', 0), (''X'', 10)],
        transactionCount = 1\<rparr> =
     length (listTransactions 0 1704067200000 (Text ''day'') two_day_server) \<and>
   exportTransactions (\<lambda>x. ''n'') 0 1704067200000 (Text ''day'') (Text ''json'') two_day_server =
     JsonExport
       \<lparr>totalTransactions = 1, summary_totalIncome = 10, summary_totalExpenses = 2,
        netProfit = 8, exportDate = ''2024-01-01T00:00:00.000Z'',
        summary_filter = Text ''day''\<rparr>
       [sample_transaction]"
proof -
  have l: "listTransactions 0 1704067200000 (Text ''day'') two_day_server = [sample_transaction]"
    by (simp add: listTransactions_def transactions_where_def Let_def db_all_def
        order_by_timestamp_desc_def two_day_server_def sample_server_def formatDate_new_year_2024
        sample_transaction_def future_transaction_def)
  have r: "analytics_rows 0 1704067200000 (Text ''day'') two_day_server = [sample_transaction]"
    by (simp add: analytics_rows_def analytics_where_def Let_def db_all_def
        two_day_server_def sample_server_def formatDate_new_year_2024
        sample_transaction_def future_transaction_def)
  have c: "computeAnalytics 0 1704067200000 (Text ''day'') two_day_server =
     Inr \<lparr>totalIncome = 10, totalExpenses = 2, netIncome = 8,
          servicePerformance = [(''Photography'', 0), (''Makeup'', 0), (''Product Sales'', 0), (''X'', 10)],
          transactionCount = 1\<rparr>"
    by (simp add: computeAnalytics_def r analytics_of_rows_def Let_def
        servicePerformance_step_def hasOwnProperty_def sample_transaction_def)
  show ?thesis
    using period_filter_shared [of 0 1704067200000 "Text ''day''" two_day_server
        "\<lparr>totalIncome = 10, totalExpenses = 2, netIncome = 8,
          servicePerformance = [(''Photography'', 0), (''Makeup'', 0), (''Product Sales'', 0), (''X'', 10)],
          transactionCount = 1\<rparr>" "\<lambda>x. ''n''" "Text ''json''"]
    by (simp add: l c toISOString_new_year_2024 sample_transaction_def)
qed

subsection \<open>Creating a transaction\<close>



























subsection \<open>Analytics\<close>

lemma foldl_plus_sum_list:
  "foldl (\<lambda>sum t. sum + f t) (acc::real) rows = acc + sum_list (map f rows)"
  by (induction rows arbitrary: acc) simp_all

lemma sum_list_update:
  "sum_list (map snd (AList.update k v al)) =
     sum_list (map snd al) + v - (case map_of al k of None \<Rightarrow> 0 | Some w \<Rightarrow> (w::real))"
  by (induction al) auto

lemma servicePerformance_step_ordinary:
  assumes "\<not> hasOwnProperty sp ''hasOwnProperty''"
      and "service t \<noteq> ''hasOwnProperty''" and "service t \<noteq> ''__proto__''"
  shows "\<exists>sp'. servicePerformance_step sp t = Inr sp' \<and>
           \<not> hasOwnProperty sp' ''hasOwnProperty'' \<and>
           sum_list (map snd sp') = sum_list (map snd sp) + amountPaid t"
  using assms
  by (auto simp: servicePerformance_step_def hasOwnProperty_def sum_list_update update_conv')

lemma servicePerformance_forEach_ordinary:
  assumes "\<not> hasOwnProperty sp ''hasOwnProperty''"
      and "\<forall>t \<in> set rows. service t \<noteq> ''hasOwnProperty'' \<and> service t \<noteq> ''__proto__''"
  shows "\<exists>sp'. servicePerformance_forEach sp rows = Inr sp' \<and>
           sum_list (map snd sp') = sum_list (map snd sp) + sum_list (map amountPaid rows)"
  using assms
proof (induction rows arbitrary: sp)
  case Nil
  then show ?case by simp
next
  case (Cons t ts)
  from Cons.prems obtain sp1 where
    s: "servicePerformance_step sp t = Inr sp1" and
    h: "\<not> hasOwnProperty sp1 ''hasOwnProperty''" and
    e: "sum_list (map snd sp1) = sum_list (map snd sp) + amountPaid t"
    using servicePerformance_step_ordinary [of sp t] by auto
  from Cons.IH [OF h] Cons.prems(2) obtain sp' where
    "servicePerformance_forEach sp1 ts = Inr sp'"
    "sum_list (map snd sp') = sum_list (map snd sp1) + sum_list (map amountPaid ts)"
    by auto
  with s e show ?case by simp
qed

text \<open>
  For rows whose service is neither \<open>hasOwnProperty\<close> nor \<open>__proto__\<close> the summary
  is produced and satisfies the three equations of C5 in exact arithmetic, the arithmetic
  of this model. The code adds IEEE doubles: totalIncome adds the amounts in the order of
  the rows and servicePerformance adds them service by service, so there the two sums
  agree up to rounding only.
\<close>

lemma analytics_ordinary_services:
  assumes "\<forall>t \<in> set rows. service t \<noteq> ''hasOwnProperty'' \<and> service t \<noteq> ''__proto__''"
  shows "\<exists>a. analytics_of_rows rows = Inr a \<and>
           netIncome a = totalIncome a - totalExpenses a \<and>
           servicePerformance_total a = totalIncome a \<and>
           transactionCount a = length rows"
proof -
  have h: "\<not> hasOwnProperty [(''Photography'', 0), (''Makeup'', 0), (''Product Sales'', 0)] ''hasOwnProperty''"
    by (simp add: hasOwnProperty_def)
  from servicePerformance_forEach_ordinary [OF h assms] obtain sp' where
    "servicePerformance_forEach [(''Photography'', 0), (''Makeup'', 0), (''Product Sales'', 0)] rows = Inr sp'"
    "sum_list (map snd sp') = sum_list (map amountPaid rows)"
    by auto
  then show ?thesis
    by (simp add: analytics_of_rows_def Let_def servicePerformance_total_def foldl_plus_sum_list)
qed

text \<open>
  C5 at the failing input: one stored transaction with service \<open>__proto__\<close>,
  amountPaid 10 and expenses 2. The summary has totalIncome 10, and the values of
  servicePerformance sum to 0: the amount was assigned to \<open>__proto__\<close> and lost.
\<close>

theorem analytics_proto_row:
  "computeAnalytics 0 0 Absent (empty_server\<lparr>transactions := [proto_transaction]\<rparr>) =
     Inr \<lparr>totalIncome = 10, totalExpenses = 2, netIncome = 8,
          servicePerformance = [(''Photography'', 0), (''Makeup'', 0), (''Product Sales'', 0)],
          transactionCount = 1\<rparr> \<and>
   servicePerformance_total
     \<lparr>totalIncome = 10, totalExpenses = 2, netIncome = 8,
      servicePerformance = [(''Photography'', 0), (''Makeup'', 0), (''Product Sales'', 0)],
      transactionCount = 1\<rparr> = 0"
  by (simp add: computeAnalytics_def analytics_rows_def analytics_where_def db_all_def
      analytics_of_rows_def servicePerformance_step_def hasOwnProperty_def
      servicePerformance_total_def proto_transaction_def sample_transaction_def
      empty_server_def Let_def)

text \<open>
  Two stored transactions with service \<open>hasOwnProperty\<close>: the second iteration calls a
  number, and no summary is produced.
\<close>

lemma analytics_hasOwnProperty_rows:
  "computeAnalytics 0 0 Absent (empty_server\<lparr>transactions := [hop_transaction, hop_transaction]\<rparr>) =
     Inl (TypeError ''analytics.servicePerformance.hasOwnProperty is not a function'')"
  by (simp add: computeAnalytics_def analytics_rows_def analytics_where_def db_all_def
      analytics_of_rows_def servicePerformance_step_def hasOwnProperty_def
      hop_transaction_def sample_transaction_def
      empty_server_def Let_def)

subsection \<open>CSV export\<close>

lemma foldl_append_concat:
  "foldl (\<lambda>csv row. csv @ f row) acc rows = acc @ concat (map f rows)"
  by (induction rows arbitrary: acc) simp_all

lemma csv_line_spec: "csv_line num_str r = spec_csv_row num_str r"
  by (simp add: csv_line_def spec_csv_row_def spec_csv_fields_def spec_quoted_def Let_def)

lemma order_by_timestamp_desc_sorted:
  "sorted_wrt (\<lambda>a b. timestamp a \<ge> timestamp b) (order_by_timestamp_desc rows)"
proof -
  have "sorted (map timestamp (sort_key timestamp (rev rows)))"
    by (rule sorted_sort_key)
  then have "sorted_wrt (\<lambda>a b. timestamp a \<le> timestamp b) (sort_key timestamp (rev rows))"
    by (simp add: sorted_map)
  then show ?thesis
    by (simp add: order_by_timestamp_desc_def sorted_wrt_rev)
qed

text \<open>
  C6. For every table and period, the CSV export is the header row
  \<open>Date,Customer Name,Phone Number,Service,Amount Paid,Service By,Expenses,Net Profit,Timestamp\<close>
  followed by one row per selected transaction and nothing else; the selected
  transactions are those listTransactions returns for the period, newest first (by
  descending timestamp); each row is the nine fields, every one between double quotes,
  joined by commas, the Net Profit field being amountPaid minus expenses. In particular
  the export of the single transaction of the spec's example (amountPaid 10, expenses 2)
  is the header and one row whose Net Profit field is the number 8.
\<close>

theorem export_csv_rows:
  "exportTransactions num_str tza now p (Text ''csv'') s =
     Csv (csv_header @ concat (map (spec_csv_row num_str) (export_rows tza now p s))) \<and>
   csv_header =
     ''Date,Customer Name,Phone Number,Service,Amount Paid,Service By,Expenses,Net Profit,Timestamp\<newline>'' \<and>
   export_rows tza now p s = listTransactions tza now p s \<and>
   mset (export_rows tza now p s) = mset (filter (matches (export_where tza now p)) (transactions s)) \<and>
   sorted_wrt (\<lambda>a b. timestamp a \<ge> timestamp b) (export_rows tza now p s) \<and>
   exportTransactions num_str tza now Absent (Text ''csv'') (s\<lparr>transactions := [sample_transaction]\<rparr>) =
     Csv (csv_header @
          ''\"2024-01-01\",\"A\",\"1\",\"X\",\"'' @ num_str 10 @ ''\",\"B\",\"'' @ num_str 2 @
          ''\",\"'' @ num_str 8 @ ''\",\"2024-01-01T09:00:00.000Z\"\<newline>'')"
proof -
  have a: "exportTransactions num_str tza now p (Text ''csv'') s =
     Csv (csv_header @ concat (map (spec_csv_row num_str) (export_rows tza now p s)))" for p s
    by (simp add: exportTransactions_def csv_of_rows_def foldl_append_concat csv_line_spec Let_def)
  have w: "export_where tza now p = transactions_where tza now p"
    by (simp add: export_where_def transactions_where_def)
  have b: "export_rows tza now p s = listTransactions tza now p s"
    by (simp add: export_rows_def listTransactions_def w)
  have c: "mset (export_rows tza now p s) = mset (filter (matches (export_where tza now p)) (transactions s))"
    by (simp add: export_rows_def db_all_def order_by_timestamp_desc_def Let_def)
  have d: "sorted_wrt (\<lambda>a b. timestamp a \<ge> timestamp b) (export_rows tza now p s)"
    by (simp add: export_rows_def db_all_def order_by_timestamp_desc_sorted Let_def)
  have r: "export_rows tza now Absent (s\<lparr>transactions := [sample_transaction]\<rparr>) = [sample_transaction]"
    by (simp add: export_rows_def export_where_def db_all_def order_by_timestamp_desc_def Let_def)
  have e: "spec_csv_row num_str sample_transaction =
      ''\"2024-01-01\",\"A\",\"1\",\"X\",\"'' @ num_str 10 @ ''\",\"B\",\"'' @ num_str 2 @
          ''\",\"'' @ num_str 8 @ ''\",\"2024-01-01T09:00:00.000Z\"\<newline>''"
    by (simp add: spec_csv_row_def spec_csv_fields_def spec_quoted_def sample_transaction_def)
  show ?thesis
    using a [of p s] a [of Absent "s\<lparr>transactions := [sample_transaction]\<rparr>"] b c d
    by (simp add: r e csv_header_def)
qed

text \<open>Rows with equal timestamps keep the order in which the table holds them.\<close>

lemma order_by_timestamp_desc_ties:
  "timestamp a = timestamp b \<Longrightarrow> order_by_timestamp_desc [a, b] = [a, b]"
  by (simp add: order_by_timestamp_desc_def)

subsection \<open>The backup\<close>

lemma split_T_first_cut: "split_T_first (p @ CHR ''T'' # r) = split_T_first p"
  by (induction p) (simp_all add: split_T_first_def)

lemma toISOString_date_part:
  assumes d: "Day t1 = Day t2"
  shows "split_T_first (toISOString t1) = split_T_first (toISOString t2)"
proof -
  define P where "P t = iso_year (YearFromTime t) @ ''-'' @
     padStart 2 (CHR ''0'') (js_int_str (MonthFromTime t + 1)) @ ''-'' @
     padStart 2 (CHR ''0'') (js_int_str (DateFromTime t))" for t
  define R where "R t = padStart 2 (CHR ''0'') (js_int_str (HourFromTime t)) @ '':'' @
     padStart 2 (CHR ''0'') (js_int_str (MinFromTime t)) @ '':'' @
     padStart 2 (CHR ''0'') (js_int_str (SecFromTime t)) @ ''.'' @
     padStart 3 (CHR ''0'') (js_int_str (msFromTime t)) @ ''Z''" for t
  have y: "YearFromTime t1 = YearFromTime t2" using d by (simp add: YearFromTime_def)
  have l: "InLeapYear t1 = InLeapYear t2" using y by (simp add: InLeapYear_def)
  have w: "DayWithinYear t1 = DayWithinYear t2" using d y by (simp add: DayWithinYear_def)
  have m: "MonthFromTime t1 = MonthFromTime t2" using l w by (simp add: MonthFromTime_def)
  have dt: "DateFromTime t1 = DateFromTime t2" using l w m by (simp add: DateFromTime_def)
  have P: "P t1 = P t2" unfolding P_def y m dt ..
  have iso: "toISOString t = P t @ CHR ''T'' # R t" for t
    unfolding toISOString_def P_def R_def by simp
  show ?thesis
    unfolding iso split_T_first_cut P ..
qed

lemma backupPath_same_day: "Day now1 = Day now2 \<Longrightarrow> backupPath_of bp now1 = backupPath_of bp now2"
  using toISOString_date_part [of now1 now2] by (simp add: backupPath_of_def)

lemma backupPath_neq_dir: "backupPath_of bp now \<noteq> backupDir_of bp"
  by (simp add: backupPath_of_def Let_def)

lemmas backup_defs = backupDatabase_def copyFileSync_def mkdirSync_def existsSync_def Let_def

lemma node_cases [case_names absent directory regular]:
  "(x = None \<Longrightarrow> P) \<Longrightarrow> (x = Some Dir \<Longrightarrow> P) \<Longrightarrow> (\<And>c. x = Some (File c) \<Longrightarrow> P) \<Longrightarrow> P"
  by (metis fs_node.exhaust option.exhaust)

lemma backupDatabase_copies:
  assumes db: "db_file s"
      and dir: "fs s (backupDir_of bp) = None \<or> fs s (backupDir_of bp) = Some Dir"
      and dst: "fs s (backupPath_of bp now) \<noteq> Some Dir"
  shows "fs (fst (backupDatabase bp now s)) =
           (fs s)(backupDir_of bp \<mapsto> Dir, backupPath_of bp now \<mapsto> File (transactions s, messages s))"
proof -
  note ne = backupPath_neq_dir [of bp now]
  from dir show ?thesis
  proof
    assume n: "fs s (backupDir_of bp) = None"
    show ?thesis
    proof (cases "fs s (backupPath_of bp now)")
      case None
      with n db ne show ?thesis by (simp add: backup_defs)
    next
      case (Some v)
      with dst obtain c where "v = File c" by (cases v) auto
      with Some n db ne show ?thesis by (simp add: backup_defs)
    qed
  next
    assume d: "fs s (backupDir_of bp) = Some Dir"
    have upd: "(fs s)(backupDir_of bp \<mapsto> Dir) = fs s"
      using d by (rule map_upd_triv)
    show ?thesis
    proof (cases "fs s (backupPath_of bp now)")
      case None
      with d db ne upd show ?thesis by (simp add: backup_defs)
    next
      case (Some v)
      with dst obtain c where "v = File c" by (cases v) auto
      with Some d db ne upd show ?thesis by (simp add: backup_defs)
    qed
  qed
qed

lemma backupDatabase_logs:
  assumes db: "db_file s"
      and dir: "fs s (backupDir_of bp) = None \<or> fs s (backupDir_of bp) = Some Dir"
      and dst: "fs s (backupPath_of bp now) \<noteq> Some Dir"
  shows "snd (backupDatabase bp now s) = [''Database backed up to '' @ backupPath_of bp now]"
proof -
  note ne = backupPath_neq_dir [of bp now]
  show ?thesis
  proof (cases rule: node_cases [of "fs s (backupPath_of bp now)"])
    case absent
    with dir db ne show ?thesis by (auto simp add: backup_defs)
  next
    case directory
    with dst show ?thesis by simp
  next
    case (regular c)
    with dir db ne show ?thesis by (auto simp add: backup_defs)
  qed
qed

lemma backupDatabase_no_source:
  "\<not> db_file s \<Longrightarrow>
   backupDatabase bp now s =
     (if existsSync s (backupDir_of bp) then s else mkdirSync s (backupDir_of bp),
      [''Database file not found, skipping backup''])"
  by (simp add: backupDatabase_def Let_def mkdirSync_def)

lemma backupDatabase_frame:
  assumes "p \<noteq> backupDir_of bp" and "p \<noteq> backupPath_of bp now"
  shows "fs (fst (backupDatabase bp now s)) p = fs s p"
proof (cases "db_file s")
  case False
  with assms show ?thesis by (simp add: backup_defs)
next
  case True
  note ne = backupPath_neq_dir [of bp now]
  show ?thesis
  proof (cases rule: node_cases [of "fs s (backupDir_of bp)"])
    case absent
    show ?thesis
      by (cases rule: node_cases [of "fs s (backupPath_of bp now)"])
         (use absent True ne assms in \<open>simp_all add: backup_defs\<close>)
  next
    case directory
    show ?thesis
      by (cases rule: node_cases [of "fs s (backupPath_of bp now)"])
         (use directory True ne assms in \<open>simp_all add: backup_defs\<close>)
  next
    case (regular c)
    with True assms show ?thesis by (simp add: backup_defs)
  qed
qed

lemma backupDatabase_idem:
  "backupDatabase bp now (fst (backupDatabase bp now s)) = backupDatabase bp now s"
proof -
  note ne = backupPath_neq_dir [of bp now]
  show ?thesis
  proof (cases rule: node_cases [of "fs s (backupDir_of bp)"])
    case absent
    show ?thesis
      by (cases "db_file s"; cases rule: node_cases [of "fs s (backupPath_of bp now)"])
         (use absent ne in \<open>simp_all add: backup_defs\<close>)
  next
    case directory
    show ?thesis
      by (cases "db_file s"; cases rule: node_cases [of "fs s (backupPath_of bp now)"])
         (use directory ne in \<open>simp_all add: backup_defs\<close>)
  next
    case (regular c)
    then show ?thesis by (cases "db_file s") (simp_all add: backup_defs)
  qed
qed

lemma backupDatabase_same_day:
  "Day now1 = Day now2 \<Longrightarrow> backupDatabase bp now1 s = backupDatabase bp now2 s"
  using backupPath_same_day [of now1 now2 bp] by (simp add: backupDatabase_def)

lemma backupDatabase_tables:
  "transactions (fst (backupDatabase bp now s)) = transactions s \<and>
   messages (fst (backupDatabase bp now s)) = messages s"
proof (cases rule: node_cases [of "fs s (backupDir_of bp)"])
  case absent
  show ?thesis
    by (cases "db_file s"; cases rule: node_cases [of "fs s (backupPath_of bp now)"])
       (use absent backupPath_neq_dir [of bp now] in \<open>simp_all add: backup_defs\<close>)
next
  case directory
  show ?thesis
    by (cases "db_file s"; cases rule: node_cases [of "fs s (backupPath_of bp now)"])
       (use directory backupPath_neq_dir [of bp now] in \<open>simp_all add: backup_defs\<close>)
next
  case (regular c)
  then show ?thesis by (cases "db_file s") (simp_all add: backup_defs)
qed

lemma backupPath_epoch: "backupPath_of None 0 = ''./backups/business_1970-01-01.db''"
  by code_simp

lemma backupPath_epoch_later: "backupPath_of None 1000 = ''./backups/business_1970-01-01.db''"
  by code_simp

lemma backupDir_default: "backupDir_of None = ''./backups''"
  by (simp add: backupDir_of_def)

text \<open>
  C8, as the spec states it, fails in its last part: with no database file and no backup
  directory, backupDatabase is not a no-op, it creates the backup directory before it
  looks for the database file.
\<close>

theorem backup_not_noop_counterexample:
  "\<not> db_file empty_server \<and>
   fs empty_server ''./backups'' = None \<and>
   fs (fst (backupDatabase None 0 empty_server)) ''./backups'' = Some Dir"
  by (simp add: backup_defs empty_server_def backupDir_default)

text \<open>
  C8, amended. The backup path is named by the UTC calendar day of the clock, so two
  calls on the same day write to one path; a second call on the same day leaves the
  state as the first call left it (backupDatabase is idempotent per day), and when that
  day's backup already exists a later call the same day replaces its content with the
  current tables and adds no path. A call touches no path but the backup directory and
  that day's backup. When the database file does not exist, backupDatabase copies
  nothing: it creates the backup directory if it is missing, changes nothing else, and
  logs the warning. When the database file exists, the backup directory is missing or a
  directory and that day's backup path is not a directory, the call produces the backup:
  afterwards the file system is the one before the call with the backup directory and
  one file at that day's path holding the current tables, it logs the success line, and
  after a second call on the same day the file system is still that one: there is
  exactly one backup artifact for the day.
\<close>

theorem backupDatabase_per_day:
  "(Day now1 = Day now2 \<longrightarrow> backupPath_of bp now1 = backupPath_of bp now2) \<and>
   (Day now1 = Day now2 \<longrightarrow>
      backupDatabase bp now2 (fst (backupDatabase bp now1 s)) = backupDatabase bp now1 s) \<and>
   (Day now1 = Day now2 \<and> db_file s \<and> fs s (backupDir_of bp) = Some Dir \<and>
    fs s (backupPath_of bp now1) = Some (File c) \<longrightarrow>
      fs (fst (backupDatabase bp now2 s)) =
        (fs s)(backupPath_of bp now1 \<mapsto> File (transactions s, messages s)) \<and>
      dom (fs (fst (backupDatabase bp now2 s))) = dom (fs s)) \<and>
   (p \<noteq> backupDir_of bp \<and> p \<noteq> backupPath_of bp now1 \<longrightarrow>
      fs (fst (backupDatabase bp now1 s)) p = fs s p) \<and>
   (\<not> db_file s \<longrightarrow>
      backupDatabase bp now1 s =
        (if existsSync s (backupDir_of bp) then s else mkdirSync s (backupDir_of bp),
         [''Database file not found, skipping backup''])) \<and>
   (db_file s \<and> (fs s (backupDir_of bp) = None \<or> fs s (backupDir_of bp) = Some Dir) \<and>
    fs s (backupPath_of bp now1) \<noteq> Some Dir \<longrightarrow>
      fs (fst (backupDatabase bp now1 s)) =
        (fs s)(backupDir_of bp \<mapsto> Dir,
               backupPath_of bp now1 \<mapsto> File (transactions s, messages s)) \<and>
      snd (backupDatabase bp now1 s) = [''Database backed up to '' @ backupPath_of bp now1] \<and>
      (Day now1 = Day now2 \<longrightarrow>
         fs (fst (backupDatabase bp now2 (fst (backupDatabase bp now1 s)))) =
           (fs s)(backupDir_of bp \<mapsto> Dir,
                  backupPath_of bp now1 \<mapsto> File (transactions s, messages s))))"
proof -
  have a: "backupDatabase bp now2 (fst (backupDatabase bp now1 s)) = backupDatabase bp now1 s"
    if "Day now1 = Day now2"
    using backupDatabase_same_day [OF that] backupDatabase_idem [of bp now2 s] by simp
  have b: "fs (fst (backupDatabase bp now2 s)) =
        (fs s)(backupPath_of bp now1 \<mapsto> File (transactions s, messages s)) \<and>
      dom (fs (fst (backupDatabase bp now2 s))) = dom (fs s)"
    if d: "Day now1 = Day now2" and db: "db_file s"
      and dir: "fs s (backupDir_of bp) = Some Dir"
      and dst: "fs s (backupPath_of bp now1) = Some (File c)"
  proof -
    have "fs (fst (backupDatabase bp now1 s)) =
        (fs s)(backupDir_of bp \<mapsto> Dir, backupPath_of bp now1 \<mapsto> File (transactions s, messages s))"
      using db dir dst by (intro backupDatabase_copies) simp_all
    moreover have "(fs s)(backupDir_of bp \<mapsto> Dir) = fs s"
      using dir by (rule map_upd_triv)
    ultimately have eq: "fs (fst (backupDatabase bp now2 s)) =
        (fs s)(backupPath_of bp now1 \<mapsto> File (transactions s, messages s))"
      using backupDatabase_same_day [OF d, of bp s] by simp
    have "dom ((fs s)(backupPath_of bp now1 \<mapsto> File (transactions s, messages s))) = dom (fs s)"
      using dst by auto
    with eq show ?thesis by simp
  qed
  have first: "(Day now1 = Day now2 \<longrightarrow> backupPath_of bp now1 = backupPath_of bp now2) \<and>
   (Day now1 = Day now2 \<longrightarrow>
      backupDatabase bp now2 (fst (backupDatabase bp now1 s)) = backupDatabase bp now1 s) \<and>
   (Day now1 = Day now2 \<and> db_file s \<and> fs s (backupDir_of bp) = Some Dir \<and>
    fs s (backupPath_of bp now1) = Some (File c) \<longrightarrow>
      fs (fst (backupDatabase bp now2 s)) =
        (fs s)(backupPath_of bp now1 \<mapsto> File (transactions s, messages s)) \<and>
      dom (fs (fst (backupDatabase bp now2 s))) = dom (fs s)) \<and>
   (p \<noteq> backupDir_of bp \<and> p \<noteq> backupPath_of bp now1 \<longrightarrow>
      fs (fst (backupDatabase bp now1 s)) p = fs s p) \<and>
   (\<not> db_file s \<longrightarrow>
      backupDatabase bp now1 s =
        (if existsSync s (backupDir_of bp) then s else mkdirSync s (backupDir_of bp),
         [''Database file not found, skipping backup'']))"
    using a b backupPath_same_day [of now1 now2 bp] backupDatabase_frame [of p bp now1 s]
      backupDatabase_no_source [of s bp now1]
    by blast
  have made: "fs (fst (backupDatabase bp now1 s)) =
        (fs s)(backupDir_of bp \<mapsto> Dir,
               backupPath_of bp now1 \<mapsto> File (transactions s, messages s)) \<and>
      snd (backupDatabase bp now1 s) = [''Database backed up to '' @ backupPath_of bp now1] \<and>
      (Day now1 = Day now2 \<longrightarrow>
         fs (fst (backupDatabase bp now2 (fst (backupDatabase bp now1 s)))) =
           (fs s)(backupDir_of bp \<mapsto> Dir,
                  backupPath_of bp now1 \<mapsto> File (transactions s, messages s)))"
    if db: "db_file s"
      and dir: "fs s (backupDir_of bp) = None \<or> fs s (backupDir_of bp) = Some Dir"
      and dst: "fs s (backupPath_of bp now1) \<noteq> Some Dir"
  proof -
    have c1: "fs (fst (backupDatabase bp now1 s)) =
        (fs s)(backupDir_of bp \<mapsto> Dir,
               backupPath_of bp now1 \<mapsto> File (transactions s, messages s))"
      using db dir dst by (rule backupDatabase_copies)
    have c2: "snd (backupDatabase bp now1 s) = [''Database backed up to '' @ backupPath_of bp now1]"
      using db dir dst by (rule backupDatabase_logs)
    from c1 c2 a show ?thesis by simp
  qed
  from first made show ?thesis
    by blast
qed

theorem backupDatabase_per_day_witness:
  "Day 0 = Day 1000 \<and> backupPath_of None 0 = backupPath_of None 1000 \<and>
   backupDatabase None 1000 (fst (backupDatabase None 0 backed_up_server)) =
     backupDatabase None 0 backed_up_server \<and>
   db_file backed_up_server \<and> fs backed_up_server (backupDir_of None) = Some Dir \<and>
   fs backed_up_server (backupPath_of None 0) = Some (File ([], [])) \<and>
   fs (fst (backupDatabase None 1000 backed_up_server)) =
     (fs backed_up_server)(backupPath_of None 0 \<mapsto> File ([sample_transaction], [sample_message])) \<and>
   dom (fs (fst (backupDatabase None 1000 backed_up_server))) = dom (fs backed_up_server) \<and>
   ''./notes'' \<noteq> backupDir_of None \<and> ''./notes'' \<noteq> backupPath_of None 0 \<and>
   fs (fst (backupDatabase None 0 backed_up_server)) ''./notes'' = fs backed_up_server ''./notes'' \<and>
   \<not> db_file empty_server \<and>
   backupDatabase None 0 empty_server =
     (mkdirSync empty_server ''./backups'', [''Database file not found, skipping backup'']) \<and>
   db_file sample_server \<and> fs sample_server (backupDir_of None) = None \<and>
   fs sample_server (backupPath_of None 0) \<noteq> Some Dir \<and>
   fs (fst (backupDatabase None 0 sample_server)) =
     [''./backups'' \<mapsto> Dir,
      ''./backups/business_1970-01-01.db'' \<mapsto> File ([sample_transaction], [sample_message])] \<and>
   snd (backupDatabase None 0 sample_server) =
     [''Database backed up to ./backups/business_1970-01-01.db''] \<and>
   fs (fst (backupDatabase None 1000 (fst (backupDatabase None 0 sample_server)))) =
     [''./backups'' \<mapsto> Dir,
      ''./backups/business_1970-01-01.db'' \<mapsto> File ([sample_transaction], [sample_message])]"
  using backupDatabase_per_day [of 0 1000 None backed_up_server "([], [])" "''./notes''"]
    backupDatabase_per_day [of 0 0 None empty_server "([], [])" "''./notes''"]
    backupDatabase_per_day [of 0 1000 None sample_server "([], [])" "''./notes''"]
  by (simp add: backupPath_epoch backupPath_epoch_later backupDir_default Day_def msPerDay_def
      backed_up_server_def sample_server_def empty_server_def existsSync_def)

subsection \<open>Clearing all data\<close>

lemma clearAllData_state:
  "fst (snd (clearAllData bp now (Text ''YES_DELETE_ALL_DATA'') s)) =
     (fst (backupDatabase bp now s))\<lparr>transactions := [], messages := []\<rparr>"
  by (simp add: clearAllData_def split_def Let_def)

text \<open>
  C1, as the spec states it, fails in its last part: a server whose database is not a
  file on disk (\<open>DB_PATH\<close> names no existing file, as for an in-memory database) is
  cleared with the right token, and no backup exists afterwards.
\<close>

theorem clear_without_backup_counterexample:
  "transactions (fst (snd (clearAllData None 0 (Text ''YES_DELETE_ALL_DATA'')
      (sample_server\<lparr>db_file := False\<rparr>)))) = [] \<and>
   messages (fst (snd (clearAllData None 0 (Text ''YES_DELETE_ALL_DATA'')
      (sample_server\<lparr>db_file := False\<rparr>)))) = [] \<and>
   fs (fst (snd (clearAllData None 0 (Text ''YES_DELETE_ALL_DATA'')
      (sample_server\<lparr>db_file := False\<rparr>)))) (backupPath_of None 0) = None"
  using backupPath_neq_dir [of None 0]
  by (simp add: clearAllData_state backup_defs sample_server_def)

text \<open>
  C1, amended. For every state, clearAllData with a token other than the exact string
  YES_DELETE_ALL_DATA answers with the validation failure (status 400) and leaves the
  whole state, both tables included, unchanged. With the right token both tables are
  empty afterwards; and if the database file exists, the backup directory is missing or
  is a directory, and the backup path is not a directory, then afterwards the backup
  named by the current (UTC) calendar day holds the two tables as they were before the
  clear.
\<close>

theorem clearAllData_guarded:
  "(confirmClear \<noteq> Text ''YES_DELETE_ALL_DATA'' \<longrightarrow>
      clearAllData bp now confirmClear s =
        (Status400 ''Confirmation required. Send confirmClear: \"YES_DELETE_ALL_DATA\"'', s, [])) \<and>
   transactions (fst (snd (clearAllData bp now (Text ''YES_DELETE_ALL_DATA'') s))) = [] \<and>
   messages (fst (snd (clearAllData bp now (Text ''YES_DELETE_ALL_DATA'') s))) = [] \<and>
   (db_file s \<and> (fs s (backupDir_of bp) = None \<or> fs s (backupDir_of bp) = Some Dir) \<and>
    fs s (backupPath_of bp now) \<noteq> Some Dir \<longrightarrow>
      fs (fst (snd (clearAllData bp now (Text ''YES_DELETE_ALL_DATA'') s))) (backupPath_of bp now) =
        Some (File (transactions s, messages s)))"
proof -
  have a: "confirmClear \<noteq> Text ''YES_DELETE_ALL_DATA'' \<longrightarrow>
      clearAllData bp now confirmClear s =
        (Status400 ''Confirmation required. Send confirmClear: \"YES_DELETE_ALL_DATA\"'', s, [])"
    by (simp add: clearAllData_def)
  have b: "fs (fst (snd (clearAllData bp now (Text ''YES_DELETE_ALL_DATA'') s))) (backupPath_of bp now) =
        Some (File (transactions s, messages s))"
    if "db_file s" "fs s (backupDir_of bp) = None \<or> fs s (backupDir_of bp) = Some Dir"
       "fs s (backupPath_of bp now) \<noteq> Some Dir"
    using backupDatabase_copies [OF that] by (simp add: clearAllData_state)
  show ?thesis
    using a b by (simp add: clearAllData_state)
qed

theorem clearAllData_guarded_witness:
  "Text ''yes'' \<noteq> Text ''YES_DELETE_ALL_DATA'' \<and>
   clearAllData None 0 (Text ''yes'') sample_server =
     (Status400 ''Confirmation required. Send confirmClear: \"YES_DELETE_ALL_DATA\"'', sample_server, []) \<and>
   db_file sample_server \<and> fs sample_server (backupDir_of None) = None \<and>
   fs sample_server (backupPath_of None 0) \<noteq> Some Dir \<and>
   transactions (fst (snd (clearAllData None 0 (Text ''YES_DELETE_ALL_DATA'') sample_server))) = [] \<and>
   messages (fst (snd (clearAllData None 0 (Text ''YES_DELETE_ALL_DATA'') sample_server))) = [] \<and>
   fs (fst (snd (clearAllData None 0 (Text ''YES_DELETE_ALL_DATA'') sample_server))) (backupPath_of None 0) =
     Some (File ([sample_transaction], [sample_message]))"
  using clearAllData_guarded [of "Text ''yes''" None 0 sample_server]
  by (simp add: sample_server_def)

text \<open>
  C7, as the spec states it, fails: the response of a successful clear is the same for a
  server with one transaction and one message and for a server with none, so it cannot
  carry the counts.
\<close>

theorem clear_reply_counts_counterexample:
  "fst (clearAllData None 0 (Text ''YES_DELETE_ALL_DATA'') sample_server) =
   fst (clearAllData None 0 (Text ''YES_DELETE_ALL_DATA'') empty_server) \<and>
   length (transactions sample_server) \<noteq> length (transactions empty_server) \<and>
   length (messages sample_server) \<noteq> length (messages empty_server)"
  by (simp add: clearAllData_def sample_server_def empty_server_def split_def Let_def)

text \<open>
  C7, amended. On a successful clear the response carries the flags
  \<open>transactions: true\<close> and \<open>messages: true\<close>, the backup note and the time, whatever
  the tables held; the numbers of rows removed from each table are written to the console,
  after the lines of the backup.
\<close>

theorem clear_reply_and_log:
  "fst (clearAllData bp now (Text ''YES_DELETE_ALL_DATA'') s) =
     Json \<lparr>cleared_message = ''All data cleared successfully'',
           cleared_transactions = True,
           cleared_messages = True,
           cleared_backup = ''Data backed up before clearing'',
           cleared_timestamp = toISOString now\<rparr> \<and>
   snd (snd (clearAllData bp now (Text ''YES_DELETE_ALL_DATA'') s)) =
     snd (backupDatabase bp now s) @
     [''Cleared '' @ js_int_str (int (length (transactions s))) @ '' transactions'',
      ''Cleared '' @ js_int_str (int (length (messages s))) @ '' messages'']"
  using backupDatabase_tables [of bp now s]
  by (simp add: clearAllData_def split_def Let_def)

end
